theory Spec2Isabelle
  imports Main
begin

section \<open>Python string primitives\<close>

text \<open>
  A Python \<open>str\<close> is modelled as a \<open>string\<close>: one \<open>char\<close> per code point, for the code
  points 0 to 255. The character classes below are the Unicode classes used by
  \<open>str.isspace\<close>, \<open>str.strip\<close> and the \<open>re\<close> module (\<open>\s\<close>, \<open>\d\<close>, \<open>\w\<close>) on that range.
\<close>

definition code :: "char \<Rightarrow> nat" where
  "code c = of_char c"

definition is_space :: "char \<Rightarrow> bool" where
  "is_space c = (let n = code c in (9 \<le> n \<and> n \<le> 13) \<or> (28 \<le> n \<and> n \<le> 32) \<or> n = 133 \<or> n = 160)"

definition is_digit :: "char \<Rightarrow> bool" where
  "is_digit c = (let n = code c in 48 \<le> n \<and> n \<le> 57)"

definition is_upper :: "char \<Rightarrow> bool" where
  "is_upper c = (let n = code c in 65 \<le> n \<and> n \<le> 90)"

definition is_lower :: "char \<Rightarrow> bool" where
  "is_lower c = (let n = code c in 97 \<le> n \<and> n \<le> 122)"

definition is_word :: "char \<Rightarrow> bool" where
  "is_word c = (let n = code c in
     is_digit c \<or> is_upper c \<or> is_lower c \<or> n = 95 \<or> n = 170 \<or> n = 178 \<or> n = 179 \<or> n = 181
     \<or> n = 185 \<or> n = 186 \<or> (188 \<le> n \<and> n \<le> 190) \<or> (192 \<le> n \<and> n \<le> 214)
     \<or> (216 \<le> n \<and> n \<le> 246) \<or> 248 \<le> n)"

definition to_lower :: "char \<Rightarrow> char" where
  "to_lower c = (if is_upper c then char_of (code c + 32) else c)"

definition to_upper :: "char \<Rightarrow> char" where
  "to_upper c = (if is_lower c then char_of (code c - 32) else c)"

definition lstrip :: "string \<Rightarrow> string" where
  "lstrip s = dropWhile is_space s"

definition rstrip :: "string \<Rightarrow> string" where
  "rstrip s = rev (dropWhile is_space (rev s))"

definition strip :: "string \<Rightarrow> string" where
  "strip s = rstrip (lstrip s)"

definition rstrip_chars :: "string \<Rightarrow> string \<Rightarrow> string" where
  "rstrip_chars cs s = rev (dropWhile (\<lambda>c. c \<in> set cs) (rev s))"

text \<open>\<open>re.sub(r'\s+', ' ', s)\<close>: every maximal run of whitespace becomes one space.\<close>

fun collapse_run :: "bool \<Rightarrow> string \<Rightarrow> string" where
  "collapse_run in_run [] = []"
| "collapse_run in_run (c # s) =
     (if is_space c then (if in_run then collapse_run True s else CHR '' '' # collapse_run True s)
      else c # collapse_run False s)"

definition collapse_ws :: "string \<Rightarrow> string" where
  "collapse_ws s = collapse_run False s"

section \<open>The regular expressions of the \<open>re\<close> module\<close>

record flags =
  ignorecase :: bool
  multiline :: bool
  dotall :: bool

definition no_flags :: flags where
  "no_flags = \<lparr>ignorecase = False, multiline = False, dotall = False\<rparr>"

definition IGNORECASE :: flags where
  "IGNORECASE = \<lparr>ignorecase = True, multiline = False, dotall = False\<rparr>"

definition MULTILINE :: flags where
  "MULTILINE = \<lparr>ignorecase = False, multiline = True, dotall = False\<rparr>"

datatype cls =
    AnyChar
  | Space
  | Digit
  | Word
  | Chr char
  | Range char char
  | Union cls cls
  | Neg cls

fun cls_ok :: "flags \<Rightarrow> cls \<Rightarrow> char \<Rightarrow> bool" where
  "cls_ok fl AnyChar c = (dotall fl \<or> c \<noteq> CHR 0x0A)"
| "cls_ok fl Space c = is_space c"
| "cls_ok fl Digit c = is_digit c"
| "cls_ok fl Word c = is_word c"
| "cls_ok fl (Chr p) c = (if ignorecase fl then to_lower c = to_lower p else c = p)"
| "cls_ok fl (Range a b) c =
     ((code a \<le> code c \<and> code c \<le> code b)
      \<or> (ignorecase fl \<and>
          ((code a \<le> code (to_lower c) \<and> code (to_lower c) \<le> code b)
           \<or> (code a \<le> code (to_upper c) \<and> code (to_upper c) \<le> code b))))"
| "cls_ok fl (Union k1 k2) c = (cls_ok fl k1 c \<or> cls_ok fl k2 c)"
| "cls_ok fl (Neg k) c = (\<not> cls_ok fl k c)"

datatype rx =
    Lit string
  | Rep cls nat "nat option" bool
  | Seq rx rx
  | Alt rx rx
  | Grp nat rx
  | Look rx
  | Bol
  | Eol

definition cat :: "rx list \<Rightarrow> rx" where
  "cat rs = foldr Seq rs (Lit [])"

abbreviation star :: "cls \<Rightarrow> rx" where "star k \<equiv> Rep k 0 None True"
abbreviation plus :: "cls \<Rightarrow> rx" where "plus k \<equiv> Rep k 1 None True"
abbreviation lazy_star :: "cls \<Rightarrow> rx" where "lazy_star k \<equiv> Rep k 0 None False"
abbreviation lazy_plus :: "cls \<Rightarrow> rx" where "lazy_plus k \<equiv> Rep k 1 None False"
abbreviation times :: "cls \<Rightarrow> nat \<Rightarrow> rx" where "times k n \<equiv> Rep k n (Some n) True"
abbreviation between :: "cls \<Rightarrow> nat \<Rightarrow> nat \<Rightarrow> rx" where "between k m n \<equiv> Rep k m (Some n) True"

type_synonym caps = "(nat \<times> string) list"

fun lit_match :: "flags \<Rightarrow> string \<Rightarrow> string \<Rightarrow> string option" where
  "lit_match fl [] s = Some s"
| "lit_match fl (p # ps) [] = None"
| "lit_match fl (p # ps) (c # s) = (if cls_ok fl (Chr p) c then lit_match fl ps s else None)"

text \<open>
  The suffixes left after consuming 0, 1, 2, ... characters of a class, fewest first.
\<close>

fun span_sufs :: "(char \<Rightarrow> bool) \<Rightarrow> string \<Rightarrow> string list" where
  "span_sufs p [] = [[]]"
| "span_sufs p (c # s) = (c # s) # (if p c then span_sufs p s else [])"

definition rep_sufs :: "(char \<Rightarrow> bool) \<Rightarrow> nat \<Rightarrow> nat option \<Rightarrow> bool \<Rightarrow> string \<Rightarrow> string list" where
  "rep_sufs p lo hi greedy s =
     (let all = (case hi of None \<Rightarrow> span_sufs p s | Some h \<Rightarrow> take (Suc h) (span_sufs p s));
          ok = drop lo all
      in if greedy then rev ok else ok)"

text \<open>
  The backtracking matcher: every way the expression matches at the head of \<open>s\<close>, as the
  captures and the rest of the subject, in the order in which \<open>re\<close> tries them. \<open>n\<close> is the
  length of the whole subject (for \<open>^\<close>).
\<close>

fun rmatch :: "flags \<Rightarrow> nat \<Rightarrow> rx \<Rightarrow> caps \<Rightarrow> string \<Rightarrow> (caps \<times> string) list" where
  "rmatch fl n (Lit w) c s = (case lit_match fl w s of None \<Rightarrow> [] | Some s' \<Rightarrow> [(c, s')])"
| "rmatch fl n (Rep k lo hi g) c s = map (Pair c) (rep_sufs (cls_ok fl k) lo hi g s)"
| "rmatch fl n (Seq a b) c s =
     concat (map (\<lambda>(c', s'). rmatch fl n b c' s') (rmatch fl n a c s))"
| "rmatch fl n (Alt a b) c s = rmatch fl n a c s @ rmatch fl n b c s"
| "rmatch fl n (Grp i a) c s =
     map (\<lambda>(c', s'). ((i, take (length s - length s') s) # c', s')) (rmatch fl n a c s)"
| "rmatch fl n (Look a) c s = (if rmatch fl n a c s = [] then [] else [(c, s)])"
| "rmatch fl n Bol c s = (if length s = n then [(c, s)] else [])"
| "rmatch fl n Eol c s =
     (case s of [] \<Rightarrow> [(c, s)]
      | x # t \<Rightarrow> if x = CHR 0x0A \<and> (t = [] \<or> multiline fl) then [(c, s)] else [])"

text \<open>A match object: the text before the match, the captures, the matched text, the rest.\<close>

record rmatch_obj =
  m_caps :: caps
  m_text :: string
  m_rest :: string

definition group :: "rmatch_obj \<Rightarrow> nat \<Rightarrow> string" where
  "group m i = (if i = 0 then m_text m else (case map_of (m_caps m) i of Some g \<Rightarrow> g | None \<Rightarrow> []))"

definition match_at :: "flags \<Rightarrow> nat \<Rightarrow> rx \<Rightarrow> string \<Rightarrow> rmatch_obj option" where
  "match_at fl n r s =
     (case rmatch fl n r [] s of [] \<Rightarrow> None
      | (c, s') # _ \<Rightarrow> Some \<lparr>m_caps = c, m_text = take (length s - length s') s, m_rest = s'\<rparr>)"

fun search_from :: "flags \<Rightarrow> nat \<Rightarrow> rx \<Rightarrow> string \<Rightarrow> rmatch_obj option" where
  "search_from fl n r [] = match_at fl n r []"
| "search_from fl n r (x # t) =
     (case match_at fl n r (x # t) of Some m \<Rightarrow> Some m | None \<Rightarrow> search_from fl n r t)"

definition search :: "flags \<Rightarrow> rx \<Rightarrow> string \<Rightarrow> rmatch_obj option" where
  "search fl r s = search_from fl (length s) r s"

text \<open>
  \<open>finditer\<close>: the non-overlapping matches from left to right. After an empty match the
  scan moves on by one character.
\<close>

function finditer_from :: "flags \<Rightarrow> nat \<Rightarrow> rx \<Rightarrow> string \<Rightarrow> rmatch_obj list" where
  "finditer_from fl n r s =
     (case match_at fl n r s of
        None \<Rightarrow> (case s of [] \<Rightarrow> [] | x # t \<Rightarrow> finditer_from fl n r t)
      | Some m \<Rightarrow>
          m # (if length (m_rest m) < length s then finditer_from fl n r (m_rest m)
               else (case s of [] \<Rightarrow> [] | x # t \<Rightarrow> finditer_from fl n r t)))"
  by pat_completeness auto
termination
  by (relation "measure (\<lambda>(fl, n, r, s). length s)") auto

definition finditer :: "flags \<Rightarrow> rx \<Rightarrow> string \<Rightarrow> rmatch_obj list" where
  "finditer fl r s = finditer_from fl (length s) r s"

section \<open>Stop destinations\<close>

text \<open>The exceptions that can reach the catch-all handlers of the entry points.\<close>

datatype exn = IndexError | OtherError string

definition exn_str :: "exn \<Rightarrow> string" where
  "exn_str e = (case e of IndexError \<Rightarrow> ''list assignment index out of range'' | OtherError msg \<Rightarrow> msg)"

text \<open>\<open>int(match.group(1))\<close> on a run of decimal digits.\<close>

definition digit_val :: "char \<Rightarrow> nat" where
  "digit_val c = code c - 48"

definition int_of_digits :: "string \<Rightarrow> nat" where
  "int_of_digits ds = foldl (\<lambda>a c. 10 * a + digit_val c) 0 ds"

definition stop_pattern :: rx where
  "stop_pattern = cat [Lit ''Stop:'', star Space, Grp 1 (plus Digit), star Space,
     Lit ''Destination:'', star Space, Grp 2 (lazy_star AnyChar), star Space,
     Lit ''Stop Location Memo:'']"

definition stop_flags :: flags where
  "stop_flags = \<lparr>ignorecase = True, multiline = False, dotall = True\<rparr>"

text \<open>
  One iteration of the loop body: pad with empty strings while the list is shorter than the
  stop number, then assign at \<open>stop_number - 1\<close>. For stop number 0 the index is \<open>-1\<close>:
  Python assigns to the last element, and raises IndexError on an empty list.
\<close>

definition place :: "string list \<Rightarrow> nat \<Rightarrow> string \<Rightarrow> exn + string list" where
  "place ds k d =
     (let ds' = ds @ replicate (k - length ds) [] in
      if k = 0 then (if ds' = [] then Inl IndexError else Inr (ds'[length ds' - 1 := d]))
      else Inr (ds'[k - 1 := d]))"

fun place_all :: "string list \<Rightarrow> rmatch_obj list \<Rightarrow> exn + string list" where
  "place_all ds [] = Inr ds"
| "place_all ds (m # ms) =
     (case place ds (int_of_digits (group m 1)) (strip (group m 2)) of
        Inl e \<Rightarrow> Inl e
      | Inr ds' \<Rightarrow> place_all ds' ms)"

definition extract_stop_destinations :: "string \<Rightarrow> exn + string list" where
  "extract_stop_destinations text = place_all [] (finditer stop_flags stop_pattern text)"

section \<open>Date conversion\<close>

fun alts :: "rx list \<Rightarrow> rx" where
  "alts [] = Lit []"
| "alts [r] = r"
| "alts (r # rs) = Alt r (alts rs)"

definition month_abbrs :: "string list" where
  "month_abbrs = [''jan'', ''feb'', ''mar'', ''apr'', ''may'', ''jun'',
                  ''jul'', ''aug'', ''sep'', ''oct'', ''nov'', ''dec'']"

text \<open>
  The expression that \<open>datetime.strptime\<close> compiles (with IGNORECASE, in the C locale) from
  the format \<open>%b %d, %Y %I:%M:%S %p\<close>; the groups are numbered b = 1, d = 2, Y = 3, I = 4,
  M = 5, S = 6, p = 7.
\<close>

definition strptime_regex :: rx where
  "strptime_regex = cat [
     Grp 1 (alts (map Lit month_abbrs)), plus Space,
     Grp 2 (alts [Seq (Lit ''3'') (times (Range CHR ''0'' CHR ''1'') 1),
                  Seq (times (Range CHR ''1'' CHR ''2'') 1) (times Digit 1),
                  Seq (Lit ''0'') (times (Range CHR ''1'' CHR ''9'') 1),
                  times (Range CHR ''1'' CHR ''9'') 1,
                  Seq (Lit '' '') (times (Range CHR ''1'' CHR ''9'') 1)]),
     Lit '','', plus Space,
     Grp 3 (times Digit 4), plus Space,
     Grp 4 (alts [Seq (Lit ''1'') (times (Range CHR ''0'' CHR ''2'') 1),
                  Seq (Lit ''0'') (times (Range CHR ''1'' CHR ''9'') 1),
                  times (Range CHR ''1'' CHR ''9'') 1]),
     Lit '':'',
     Grp 5 (alts [Seq (times (Range CHR ''0'' CHR ''5'') 1) (times Digit 1), times Digit 1]),
     Lit '':'',
     Grp 6 (alts [Seq (Lit ''6'') (times (Range CHR ''0'' CHR ''1'') 1),
                  Seq (times (Range CHR ''0'' CHR ''5'') 1) (times Digit 1),
                  times Digit 1]),
     plus Space,
     Grp 7 (alts [Lit ''am'', Lit ''pm''])]"

fun index_of :: "'a \<Rightarrow> 'a list \<Rightarrow> nat" where
  "index_of x [] = 0"
| "index_of x (y # ys) = (if x = y then 0 else Suc (index_of x ys))"

definition is_leap :: "nat \<Rightarrow> bool" where
  "is_leap y = (y mod 4 = 0 \<and> (y mod 100 \<noteq> 0 \<or> y mod 400 = 0))"

definition days_in_month :: "nat \<Rightarrow> nat \<Rightarrow> nat" where
  "days_in_month y m =
     (if m = 2 then (if is_leap y then 29 else 28)
      else if m = 4 \<or> m = 6 \<or> m = 9 \<or> m = 11 then 30 else 31)"

text \<open>
  \<open>datetime.strptime(s, "%b %d, %Y %I:%M:%S %p")\<close>, as the date (year, month, day) it
  yields, or None where it raises ValueError: the expression does not match at the start,
  text remains after the match, or the fields are not a valid date and time.
\<close>

definition strptime_date :: "string \<Rightarrow> (nat \<times> nat \<times> nat) option" where
  "strptime_date s =
     (case match_at IGNORECASE (length s) strptime_regex s of
        None \<Rightarrow> None
      | Some m \<Rightarrow>
          if m_rest m \<noteq> [] then None
          else
            let month = Suc (index_of (map to_lower (group m 1)) month_abbrs);
                day = int_of_digits (strip (group m 2));
                year = int_of_digits (group m 3);
                second = int_of_digits (group m 6)
            in if 1 \<le> year \<and> day \<le> days_in_month year month \<and> second \<le> 59
               then Some (year, month, day) else None)"

definition digit_char :: "nat \<Rightarrow> char" where
  "digit_char d = ''0123456789'' ! d"

definition pad2 :: "nat \<Rightarrow> string" where
  "pad2 n = [digit_char (n div 10 mod 10), digit_char (n mod 10)]"

definition pad4 :: "nat \<Rightarrow> string" where
  "pad4 n = pad2 (n div 100) @ pad2 (n mod 100)"

text \<open>
  \<open>strftime("%d/%m/%Y")\<close> for a year from 1 to 9999. The C library prints the year in
  decimal; glibc does not pad a year below 1000.
\<close>

definition year_str :: "nat \<Rightarrow> string" where
  "year_str y = dropWhile (\<lambda>c. c = CHR ''0'') (pad4 y)"

definition strftime_dmy :: "nat \<times> nat \<times> nat \<Rightarrow> string" where
  "strftime_dmy ymd = (case ymd of (y, m, d) \<Rightarrow> pad2 d @ ''/'' @ pad2 m @ ''/'' @ year_str y)"

text \<open>
  The \<open>try\<close> block rebinds \<open>date_str\<close> to the collapsed and stripped text before parsing;
  the handler returns that rebound variable.
\<close>

definition convert_date_format :: "string \<Rightarrow> string" where
  "convert_date_format date_str =
     (let date_str' = strip (collapse_ws date_str) in
      case strptime_date date_str' of
        Some date_obj \<Rightarrow> strftime_dmy date_obj
      | None \<Rightarrow> date_str')"

section \<open>Vendor names\<close>

definition pattern_with_number :: rx where
  "pattern_with_number = cat [Bol, plus Digit, star Space, Lit ''-'', star Space,
     Grp 1 (lazy_star AnyChar), star Space, Lit ''-'', star Space, plus Digit]"

definition pattern_no_number :: rx where
  "pattern_no_number = cat [Bol, Grp 1 (lazy_star AnyChar), star Space, Lit ''-'', star Space,
     plus Digit, star Space, Lit ''-'']"

definition simple_pattern :: rx where
  "simple_pattern = cat [Bol, plus Digit, star Space, Lit ''-'', star Space,
     Grp 1 (lazy_plus AnyChar), Eol]"

definition extract_vendor_name :: "string \<Rightarrow> string" where
  "extract_vendor_name full_vendor_string =
     (if full_vendor_string = [] \<or> strip full_vendor_string = [] then []
      else
        let cleaned = strip (collapse_ws full_vendor_string) in
        case search no_flags pattern_with_number cleaned of
          Some m \<Rightarrow> strip (group m 1)
        | None \<Rightarrow>
            (case search no_flags pattern_no_number cleaned of
               Some m \<Rightarrow> strip (group m 1)
             | None \<Rightarrow>
                 (case search no_flags simple_pattern cleaned of
                    Some m \<Rightarrow> strip (group m 1)
                  | None \<Rightarrow> cleaned)))"

section \<open>Shipment type and template detection\<close>

abbreviation upper3 :: rx where "upper3 \<equiv> times (Range CHR ''A'' CHR ''Z'') 3"

text \<open>
  The PO number spliced into the expression is always a capture of \<open>(\d+)\<close>, so it stands
  for itself.
\<close>

definition shipment_type_pattern :: "string \<Rightarrow> rx" where
  "shipment_type_pattern po_number = cat [upper3, Lit ''-PO-'', times Digit 2, Lit ''-'',
     times Digit 4, Lit ''-'', Lit po_number, star Space, Lit ''('',
     Grp 1 (plus (Neg (Chr CHR '')''))), Lit '')'']"

definition extract_shipment_type :: "string \<Rightarrow> string \<Rightarrow> string" where
  "extract_shipment_type text po_number =
     (case search IGNORECASE (shipment_type_pattern po_number) text of
        Some m \<Rightarrow> strip (group m 1)
      | None \<Rightarrow> [])"

definition template2_pattern :: rx where
  "template2_pattern = cat [Lit ''Pickup'', star Space, Lit '':'', star Space, times Word 3,
     plus Space, between Digit 1 2, Lit '','', plus Space, times Digit 4, plus Space,
     between Digit 1 2, Lit '':'', times Digit 2, Lit '':'', times Digit 2]"

definition detect_template :: "string \<Rightarrow> string" where
  "detect_template text =
     (case search no_flags template2_pattern text of
        Some m \<Rightarrow> ''Template-2''
      | None \<Rightarrow> ''Template-1'')"

section \<open>Shipment records\<close>

record shipment =
  template :: string
  pickup_date :: string
  del_date :: string
  ship_from :: string
  ship_to :: string
  vendor_no :: string
  vendor_name :: string
  cubes :: string
  weight :: string
  pieces :: string
  po :: string
  shipment_type :: string
  pallets :: string
  description :: string

abbreviation num :: cls where "num \<equiv> Union (Range CHR ''0'' CHR ''9'') (Chr CHR '','')"
abbreviation any_nl :: cls where "any_nl \<equiv> Union Space (Neg Space)"
abbreviation date_dmy :: rx where
  "date_dmy \<equiv> cat [times Digit 2, Lit ''/'', times Digit 2, Lit ''/'', times Digit 4]"

subsection \<open>Template 1\<close>

definition REGEX_TEMPLATE1 :: rx where
  "REGEX_TEMPLATE1 = cat [Grp 1 (plus Digit), plus Space, Lit ''-'', plus Space,
     Grp 2 (star AnyChar), star Space, Lit ''Cube'', star Space, Lit '':'', star Space,
     Grp 3 (plus num), star Space, Lit ''Weight'', star Space, Lit '':'', star Space,
     Grp 4 (plus num), star Space, Lit ''Pieces'', star Space, Lit '':'', star Space,
     Grp 5 (plus num), star Space, upper3, Lit ''-PO-'', times Digit 2, Lit ''-'',
     times Digit 4, Lit ''-'', Grp 6 (plus Digit), star AnyChar, plus Space, Lit ''Ref'',
     star Space, Lit ''Number:'', star AnyChar, star Space, Lit ''Pallet'', star Space,
     Lit ''Count:'', Grp 7 (star AnyChar), star Space, Grp 8 (star AnyChar)]"

definition pickup_on_pattern :: rx where
  "pickup_on_pattern = cat [Lit ''Pickup'', plus Space, Lit ''On'', star Space, Lit '':'',
     star Space, Grp 1 date_dmy]"

definition deliver_on_pattern :: rx where
  "deliver_on_pattern = cat [Lit ''Deliver'', plus Space, Lit ''On'', star Space, Lit '':'',
     star Space, Grp 1 date_dmy]"

definition po_context_flags :: flags where
  "po_context_flags = \<lparr>ignorecase = True, multiline = True, dotall = False\<rparr>"

definition po_context_pattern :: "string \<Rightarrow> rx" where
  "po_context_pattern po_number = cat [Lit po_number, lazy_star any_nl, Lit ''Pallet'',
     plus Space, Lit ''Count:'', star Space,
     Grp 1 (lazy_plus (Neg (Union (Chr CHR 0x0A) (Chr CHR ''|'')))),
     Look (alts [Seq (star Space) (Lit ''|''), Seq (star Space) (Lit ''Cube''),
                 Seq (star Space) (Lit ''Weight''), Eol])]"

definition first_group :: "rmatch_obj option \<Rightarrow> string" where
  "first_group mo = (case mo of Some m \<Rightarrow> group m 1 | None \<Rightarrow> [])"

definition stop_at :: "string list \<Rightarrow> nat \<Rightarrow> string" where
  "stop_at stop_destinations i = (if length stop_destinations > i then stop_destinations ! i else [])"

definition template1_description :: "string \<Rightarrow> rmatch_obj \<Rightarrow> string" where
  "template1_description text m =
     (let d0 = (if group m 7 \<noteq> [] then strip (group m 7) else []);
          d1 = (if d0 \<noteq> [] then strip (rstrip_chars ''|'' d0) else d0)
      in if d1 = [] then
           (case search po_context_flags (po_context_pattern (group m 6)) text of
              Some pm \<Rightarrow> strip (group pm 1)
            | None \<Rightarrow> d1)
         else d1)"

definition template1_record :: "string \<Rightarrow> string \<Rightarrow> string \<Rightarrow> string \<Rightarrow> string \<Rightarrow> rmatch_obj \<Rightarrow> shipment" where
  "template1_record text pickup del sfrom sto m =
     \<lparr>template = ''Template-1'',
      pickup_date = pickup,
      del_date = del,
      ship_from = sfrom,
      ship_to = sto,
      vendor_no = group m 1,
      vendor_name = extract_vendor_name (group m 2),
      cubes = group m 3,
      weight = group m 4,
      pieces = group m 5,
      po = group m 6,
      shipment_type = extract_shipment_type text (group m 6),
      pallets = [],
      description = template1_description text m\<rparr>"

definition process_template1 :: "string \<Rightarrow> string list \<Rightarrow> shipment list" where
  "process_template1 text stop_destinations =
     (let pickup = first_group (search IGNORECASE pickup_on_pattern text);
          del = first_group (search IGNORECASE deliver_on_pattern text);
          sfrom = stop_at stop_destinations 0;
          sto = stop_at stop_destinations 1
      in map (template1_record text pickup del sfrom sto) (finditer no_flags REGEX_TEMPLATE1 text))"

subsection \<open>Template 2\<close>

record LineItemData =
  li_vendor_no :: string
  li_vendor_name :: string
  li_cubes :: string
  li_weight :: string
  li_pieces :: string
  li_po :: string
  li_match_end :: nat

definition shipment_pattern :: rx where
  "shipment_pattern = cat [Grp 1 (times Digit 6), plus Space, Lit ''-'', plus Space,
     Grp 2 (lazy_plus any_nl), Look (cat [star Space, Lit ''Cube'', star Space, Lit '':'']),
     star Space, Lit ''Cube'', star Space, Lit '':'', star Space,
     Grp 3 (plus num), plus Space, Lit ''Weight'', star Space, Lit '':'', star Space,
     Grp 4 (plus num), plus Space, Lit ''Pieces'', star Space, Lit '':'', star Space,
     Grp 5 (plus num), plus Space,
     Grp 6 (cat [upper3, Lit ''-PO-'', times Digit 2, Lit ''-'', times Digit 4, Lit ''-'',
                 Grp 7 (plus Digit)])]"

definition line_item :: "string \<Rightarrow> rmatch_obj \<Rightarrow> LineItemData" where
  "line_item text m =
     \<lparr>li_vendor_no = group m 1,
      li_vendor_name = strip (collapse_ws (group m 2)),
      li_cubes = group m 3,
      li_weight = group m 4,
      li_pieces = group m 5,
      li_po = group m 7,
      li_match_end = length text - length (m_rest m)\<rparr>"

definition line_items :: "string \<Rightarrow> LineItemData list" where
  "line_items text = map (line_item text) (finditer MULTILINE shipment_pattern text)"

definition pallet_flags :: flags where
  "pallet_flags = \<lparr>ignorecase = False, multiline = True, dotall = True\<rparr>"

definition pallet_pattern :: rx where
  "pallet_pattern = cat [Lit ''Pallet'', plus Space, Lit ''Count:'', star Space,
     Grp 1 (lazy_plus (Neg (Chr CHR 0x0A))),
     Look (Seq (star Space) (alts [Lit ''Pickup'', Lit ''Delivery'', Eol]))]"

definition pallet_data :: "string \<Rightarrow> string list" where
  "pallet_data text =
     filter (\<lambda>pallet. pallet \<noteq> [])
       (map (\<lambda>m. strip (group m 1)) (finditer pallet_flags pallet_pattern text))"

abbreviation letter :: cls where
  "letter \<equiv> Union (Range CHR ''A'' CHR ''Z'') (Range CHR ''a'' CHR ''z'')"
abbreviation am_pm :: rx where "am_pm \<equiv> Alt (Lit ''AM'') (Lit ''PM'')"
abbreviation hms :: rx where
  "hms \<equiv> cat [between Digit 1 2, Lit '':'', times Digit 2, Lit '':'', times Digit 2]"

definition pickup_pattern :: rx where
  "pickup_pattern = cat [Lit ''Pickup'', star Space, Lit '':'', star Space,
     Grp 1 (cat [times letter 3, plus Space, between Digit 1 2, Lit '','', plus Space,
                 times Digit 4, plus Space, hms, star Space, am_pm])]"

definition deliver_pattern :: rx where
  "deliver_pattern = cat [Lit ''Deliver'', Alt (Lit ''y'') (Lit []), star Space, Lit '':'',
     star Space,
     Grp 1 (cat [times letter 3, plus Space, between Digit 1 2, Lit '','', plus Space,
                 times Digit 4, lazy_star any_nl, hms, star Space, am_pm])]"

definition pickup_dates :: "string \<Rightarrow> string list" where
  "pickup_dates text = map (\<lambda>m. group m 1) (finditer IGNORECASE pickup_pattern text)"

definition delivery_dates :: "string \<Rightarrow> string list" where
  "delivery_dates text =
     map (\<lambda>m. strip (collapse_ws (group m 1))) (finditer IGNORECASE deliver_pattern text)"

definition vendor_stop_pattern :: rx where
  "vendor_stop_pattern = cat [Lit ''-'', star Space, Grp 1 (plus Digit), star Space, Lit ''-'',
     star Space, Grp 2 (plus AnyChar), Eol]"

definition stop_num_pattern :: rx where
  "stop_num_pattern = cat [Bol, Grp 1 (plus Digit), Lit '','']"

text \<open>The inner loop over the stop table: the first entry whose leading number is the
  vendor's stop number; the empty string when there is none.\<close>

fun find_stop :: "string \<Rightarrow> string list \<Rightarrow> string" where
  "find_stop vendor_stop_num [] = []"
| "find_stop vendor_stop_num (stop_dest # rest) =
     (case search no_flags stop_num_pattern stop_dest of
        Some sm \<Rightarrow> if strip (group sm 1) = vendor_stop_num then stop_dest
                   else find_stop vendor_stop_num rest
      | None \<Rightarrow> find_stop vendor_stop_num rest)"

definition template2_ship_to :: "string list \<Rightarrow> string \<Rightarrow> string" where
  "template2_ship_to stop_destinations vname =
     (case search no_flags vendor_stop_pattern vname of
        Some vm \<Rightarrow> find_stop (strip (group vm 1)) stop_destinations
      | None \<Rightarrow> [])"

definition nth_or_empty :: "string list \<Rightarrow> nat \<Rightarrow> string" where
  "nth_or_empty xs idx = (if idx < length xs then xs ! idx else [])"

definition template2_record ::
  "string \<Rightarrow> string list \<Rightarrow> string list \<Rightarrow> string list \<Rightarrow> string list \<Rightarrow> nat \<times> LineItemData \<Rightarrow> shipment" where
  "template2_record text stop_destinations pickups deliveries pallet ie =
     (case ie of (idx, item) \<Rightarrow>
        let pickup = nth_or_empty pickups idx;
            delivery = nth_or_empty deliveries idx;
            formatted_delivery_date = (if delivery \<noteq> [] then convert_date_format delivery else []);
            formatted_pickup_date = (if pickup \<noteq> [] then convert_date_format pickup else [])
        in \<lparr>template = ''Template-1'',
            pickup_date = formatted_pickup_date,
            del_date = formatted_delivery_date,
            ship_from = stop_at stop_destinations 0,
            ship_to = template2_ship_to stop_destinations (li_vendor_name item),
            vendor_no = li_vendor_no item,
            vendor_name = extract_vendor_name (li_vendor_name item),
            cubes = li_cubes item,
            weight = li_weight item,
            pieces = li_pieces item,
            po = li_po item,
            shipment_type = extract_shipment_type text (li_po item),
            pallets = [],
            description = nth_or_empty pallet idx\<rparr>)"

definition process_template2 :: "string \<Rightarrow> string list \<Rightarrow> shipment list" where
  "process_template2 text stop_destinations =
     map (template2_record text stop_destinations (pickup_dates text) (delivery_dates text)
            (pallet_data text))
         (enumerate 0 (line_items text))"

section \<open>The entry points\<close>

text \<open>
  The file system, the PDF text extraction and the clock are the environment. Each
  operation may raise.
\<close>

record env =
  path_exists :: "string \<Rightarrow> exn + bool"
  path_is_dir :: "string \<Rightarrow> exn + bool"
  glob_pdf :: "string \<Rightarrow> exn + string list"
  extract_text_from_pdf :: "string \<Rightarrow> exn + string"
  path_name :: "string \<Rightarrow> string"
  now_isoformat :: string

record pdf_result =
  template_type :: string
  records_count :: nat
  records :: "shipment list"
  file_name :: string
  processed_at :: string

text \<open>The returned dictionary: the keys \<open>result\<close> and \<open>error\<close> may each be absent.\<close>

record 'a envelope =
  result :: "'a option"
  error :: "string option"
  capability :: string

definition error_envelope :: "string \<Rightarrow> string \<Rightarrow> 'a envelope" where
  "error_envelope cap msg = \<lparr>result = None, error = Some msg, capability = cap\<rparr>"

definition result_envelope :: "string \<Rightarrow> 'a \<Rightarrow> 'a envelope" where
  "result_envelope cap r = \<lparr>result = Some r, error = None, capability = cap\<rparr>"

definition parse_pdf :: "env \<Rightarrow> string \<Rightarrow> pdf_result envelope" where
  "parse_pdf e pdf_path =
     (case path_exists e pdf_path of
        Inl x \<Rightarrow> error_envelope ''parse_pdf'' (exn_str x)
      | Inr ex \<Rightarrow>
          if \<not> ex then error_envelope ''parse_pdf'' (''PDF file not found at path: '' @ pdf_path)
          else
            (case extract_text_from_pdf e pdf_path of
               Inl x \<Rightarrow> error_envelope ''parse_pdf'' (exn_str x)
             | Inr text \<Rightarrow>
                 let ttype = detect_template text in
                 (case extract_stop_destinations text of
                    Inl x \<Rightarrow> error_envelope ''parse_pdf'' (exn_str x)
                  | Inr stop_destinations \<Rightarrow>
                      let recs = (if ttype = ''Template-1''
                                  then process_template1 text stop_destinations
                                  else process_template2 text stop_destinations)
                      in result_envelope ''parse_pdf''
                           \<lparr>template_type = ttype,
                            records_count = length recs,
                            records = recs,
                            file_name = path_name e pdf_path,
                            processed_at = now_isoformat e\<rparr>)))"

datatype dir_item = Parsed pdf_result | Failed string string

record dir_result =
  total_files :: nat
  results :: "dir_item list"
  dir_processed_at :: string

definition dir_entry :: "env \<Rightarrow> string \<Rightarrow> dir_item" where
  "dir_entry e pdf_file =
     (let r = parse_pdf e pdf_file in
      case result r of
        Some payload \<Rightarrow> Parsed payload
      | None \<Rightarrow> Failed pdf_file (case error r of Some msg \<Rightarrow> msg | None \<Rightarrow> ''Unknown error''))"

definition parse_directory :: "env \<Rightarrow> string \<Rightarrow> dir_result envelope" where
  "parse_directory e directory_path =
     (case path_exists e directory_path of
        Inl x \<Rightarrow> error_envelope ''parse_directory'' (exn_str x)
      | Inr ex \<Rightarrow>
          (case (if ex then path_is_dir e directory_path else Inr False) of
             Inl x \<Rightarrow> error_envelope ''parse_directory'' (exn_str x)
           | Inr isd \<Rightarrow>
               if \<not> isd then error_envelope ''parse_directory'' (''Directory not found: '' @ directory_path)
               else
                 (case glob_pdf e directory_path of
                    Inl x \<Rightarrow> error_envelope ''parse_directory'' (exn_str x)
                  | Inr pdf_files \<Rightarrow>
                      if pdf_files = [] then
                        error_envelope ''parse_directory''
                          (''No PDF files found in directory: '' @ directory_path)
                      else result_envelope ''parse_directory''
                             \<lparr>total_files = length pdf_files,
                              results = map (dir_entry e) pdf_files,
                              dir_processed_at = now_isoformat e\<rparr>)))"

section \<open>The vendor-string shapes in words\<close>

text \<open>
  The three shapes of the vendor string as the specification words them, each with the
  name it yields, independent of the matcher: \<open><number> - <name> - <stop-number> ...\<close>,
  \<open><name> - <stop-number> - ...\<close> and \<open><number> - <name>\<close>.
\<close>

definition not_newline :: "char \<Rightarrow> bool" where
  "not_newline c = (c \<noteq> CHR 0x0A)"

definition numbered_with_stop :: "string \<Rightarrow> string \<Rightarrow> bool" where
  "numbered_with_stop c name =
     (\<exists>d ws1 ws2 ws3 ws4 k rest.
        c = d @ ws1 @ ''-'' @ ws2 @ name @ ws3 @ ''-'' @ ws4 @ k @ rest
        \<and> list_all is_digit d \<and> d \<noteq> [] \<and> list_all is_space ws1 \<and> list_all is_space ws2
        \<and> list_all not_newline name \<and> list_all is_space ws3 \<and> list_all is_space ws4
        \<and> list_all is_digit k \<and> k \<noteq> [])"

definition name_with_stop :: "string \<Rightarrow> string \<Rightarrow> bool" where
  "name_with_stop c name =
     (\<exists>ws1 ws2 k ws3 rest.
        c = name @ ws1 @ ''-'' @ ws2 @ k @ ws3 @ ''-'' @ rest
        \<and> list_all not_newline name \<and> list_all is_space ws1 \<and> list_all is_space ws2
        \<and> list_all is_digit k \<and> k \<noteq> [] \<and> list_all is_space ws3)"

definition numbered_simple :: "string \<Rightarrow> string \<Rightarrow> bool" where
  "numbered_simple c name =
     (\<exists>d ws1 ws2 e.
        c = d @ ws1 @ ''-'' @ ws2 @ name @ e
        \<and> list_all is_digit d \<and> d \<noteq> [] \<and> list_all is_space ws1 \<and> list_all is_space ws2
        \<and> list_all not_newline name \<and> name \<noteq> [] \<and> (e = [] \<or> e = [CHR 0x0A]))"

text \<open>
  A text in which every whitespace character is a single space and no two spaces are
  adjacent; \<open>in_run\<close> says that a space came just before.
\<close>

fun tidy :: "bool \<Rightarrow> string \<Rightarrow> bool" where
  "tidy in_run [] = True"
| "tidy in_run (c # s) =
     (if is_space c then c = CHR '' '' \<and> \<not> in_run \<and> tidy True s else tidy False s)"

section \<open>Example documents\<close>

definition template2_example :: string where
  "template2_example =
     ''123456 - Ab - 2 - T Cube: 1,2 Weight: 34 Pieces: 5 ABC-PO-10-2025-98 (GR) Pallet Count: Fro '' @
     ''Pickup: Oct 20, 2025 11:59:00 PM Delivery : Oct 21, 2025 1:00:00 AM '' @
     ''654321 - Cd Cube: 6 Weight: 7 Pieces: 8 XYZ-PO-11-2025-76''"

definition template1_example :: string where
  "template1_example =
     ''Pickup On : 20/10/2025 Deliver On: 21/10/2025 '' @
     ''12 - Ab Cube: 1,2 Weight: 34 Pieces: 5 ABC-PO-10-2025-98 (GR) x Ref Number: X Pallet Count: Fro|''"

definition example_env :: env where
  "example_env =
     \<lparr>path_exists = (\<lambda>p. Inr True),
      path_is_dir = (\<lambda>p. Inr (p = ''in'')),
      glob_pdf = (\<lambda>p. Inr [''in/a.pdf'', ''in/b.pdf'']),
      extract_text_from_pdf =
        (\<lambda>p. if p = ''in/a.pdf'' then Inr ''Stop: 1 Destination: W Stop Location Memo:''
              else Inl (OtherError ''EOF marker not found'')),
      path_name = (\<lambda>p. drop 3 p),
      now_isoformat = ''2025-10-20T11:59:00''\<rparr>"

section \<open>Evaluating the character classes\<close>

lemma is_digit_Char [code]:
  "is_digit (Char b0 b1 b2 b3 b4 b5 b6 b7) = (\<not> b7 \<and> \<not> b6 \<and> b5 \<and> b4 \<and> (\<not> b3 \<or> (\<not> b2 \<and> \<not> b1)))"
  by (cases b0; cases b1; cases b2; cases b3; cases b4; cases b5; cases b6; cases b7;
      simp add: is_digit_def code_def)

lemma is_upper_Char [code]:
  "is_upper (Char b0 b1 b2 b3 b4 b5 b6 b7) =
     (\<not> b7 \<and> b6 \<and> \<not> b5 \<and> (b0 \<or> b1 \<or> b2 \<or> b3 \<or> b4) \<and> \<not> (b4 \<and> b3 \<and> (b2 \<or> (b1 \<and> b0))))"
  by (cases b0; cases b1; cases b2; cases b3; cases b4; cases b5; cases b6; cases b7;
      simp add: is_upper_def code_def)

lemma is_lower_Char [code]:
  "is_lower (Char b0 b1 b2 b3 b4 b5 b6 b7) =
     (\<not> b7 \<and> b6 \<and> b5 \<and> (b0 \<or> b1 \<or> b2 \<or> b3 \<or> b4) \<and> \<not> (b4 \<and> b3 \<and> (b2 \<or> (b1 \<and> b0))))"
  by (cases b0; cases b1; cases b2; cases b3; cases b4; cases b5; cases b6; cases b7;
      simp add: is_lower_def code_def)

lemma is_space_Char [code]:
  "is_space (Char b0 b1 b2 b3 b4 b5 b6 b7) =
     ((\<not> b7 \<and> \<not> b6 \<and> \<not> b5 \<and> \<not> b4 \<and> b3 \<and> ((\<not> b2 \<and> (b1 \<or> b0)) \<or> (b2 \<and> \<not> b1)))
      \<or> (\<not> b7 \<and> \<not> b6 \<and> \<not> b5 \<and> b4 \<and> b3 \<and> b2)
      \<or> (\<not> b6 \<and> b5 \<and> \<not> b4 \<and> \<not> b3 \<and> \<not> b2 \<and> \<not> b1 \<and> \<not> b0)
      \<or> (b7 \<and> \<not> b6 \<and> \<not> b5 \<and> \<not> b4 \<and> \<not> b3 \<and> b2 \<and> \<not> b1 \<and> b0))"
  by (cases b0; cases b1; cases b2; cases b3; cases b4; cases b5; cases b6; cases b7;
      simp add: is_space_def code_def)

lemma to_lower_Char [code]:
  "to_lower (Char b0 b1 b2 b3 b4 b5 b6 b7) =
     (if is_upper (Char b0 b1 b2 b3 b4 b5 b6 b7) then Char b0 b1 b2 b3 b4 True b6 b7
      else Char b0 b1 b2 b3 b4 b5 b6 b7)"
  by (cases b0; cases b1; cases b2; cases b3; cases b4; cases b5; cases b6; cases b7;
      simp add: to_lower_def is_upper_def code_def char_of_eq_iff)

lemma to_upper_Char [code]:
  "to_upper (Char b0 b1 b2 b3 b4 b5 b6 b7) =
     (if is_lower (Char b0 b1 b2 b3 b4 b5 b6 b7) then Char b0 b1 b2 b3 b4 False b6 b7
      else Char b0 b1 b2 b3 b4 b5 b6 b7)"
  by (cases b0; cases b1; cases b2; cases b3; cases b4; cases b5; cases b6; cases b7;
      simp add: to_upper_def is_lower_def code_def char_of_eq_iff)

section \<open>The examples, evaluated\<close>

lemma template2_example_records:
  "process_template2 template2_example [''W'', ''2, S''] =
   [\<lparr>template = ''Template-1'', pickup_date = ''20/10/2025'',
     del_date = ''21/10/2025'', ship_from = ''W'', ship_to = ''2, S'',
     vendor_no = ''123456'', vendor_name = ''Ab'', cubes = ''1,2'',
     weight = ''34'', pieces = ''5'', po = ''98'', shipment_type = ''GR'',
     pallets = [], description = ''Fro''\<rparr>,
    \<lparr>template = ''Template-1'', pickup_date = [], del_date = [],
     ship_from = ''W'', ship_to = [], vendor_no = ''654321'',
     vendor_name = ''Cd'', cubes = ''6'', weight = ''7'', pieces = ''8'',
     po = ''76'', shipment_type = [], pallets = [], description = []\<rparr>]"
  by code_simp

lemma template2_example_scans:
  "map li_vendor_no (line_items template2_example) = [''123456'', ''654321'']
   \<and> pickup_dates template2_example = [''Oct 20, 2025 11:59:00 PM'']
   \<and> delivery_dates template2_example = [''Oct 21, 2025 1:00:00 AM'']
   \<and> pallet_data template2_example = [''Fro'']"
  by code_simp

lemma template1_example_records:
  "process_template1 template1_example [''W'', ''S''] =
   [\<lparr>template = ''Template-1'', pickup_date = ''20/10/2025'',
     del_date = ''21/10/2025'', ship_from = ''W'', ship_to = ''S'',
     vendor_no = ''12'', vendor_name = ''Ab'', cubes = ''1,2'',
     weight = ''34'', pieces = ''5'', po = ''98'', shipment_type = ''GR'',
     pallets = [], description = ''Fro''\<rparr>]"
  by code_simp

lemma convert_date_format_empty: "convert_date_format [] = []"
  by code_simp

section \<open>The template extractors\<close>

text \<open>
  C1. Every record that the Template-2 extractor produces carries the label
  \<open>Template-1\<close>, whatever the text and the stop table.
\<close>

theorem process_template2_label:
  "\<forall>r \<in> set (process_template2 text stop_destinations). template r = ''Template-1''"
  by (auto simp: process_template2_def template2_record_def Let_def)

theorem process_template2_label_witness:
  "map template (process_template2 template2_example [''W'', ''2, S''])
     = [''Template-1'', ''Template-1'']"
  using process_template2_label [of template2_example "[''W'', ''2, S'']"]
  by (simp add: template2_example_records)

lemma process_template2_length:
  "length (process_template2 text stop_destinations) = length (line_items text)"
  by (simp add: process_template2_def)

lemma process_template2_nth:
  assumes "i < length (line_items text)"
  shows "process_template2 text stop_destinations ! i =
         template2_record text stop_destinations (pickup_dates text) (delivery_dates text)
           (pallet_data text) (i, line_items text ! i)"
  using assms by (simp add: process_template2_def nth_enumerate_eq)

text \<open>
  C2. The record of the i-th line item takes its pickup date from the i-th match of the
  pickup scan and its delivery date from the i-th match of the delivery scan (each
  rendered by the date conversion), and its description from the i-th non-empty capture of
  the description scan; where a sequence has no i-th element the field is empty.
\<close>

theorem template2_positional_pairing:
  assumes "i < length (line_items text)"
  shows "length (process_template2 text stop_destinations) = length (line_items text)
     \<and> vendor_no (process_template2 text stop_destinations ! i) = li_vendor_no (line_items text ! i)
     \<and> po (process_template2 text stop_destinations ! i) = li_po (line_items text ! i)
     \<and> pickup_date (process_template2 text stop_destinations ! i) =
         (if i < length (pickup_dates text) then convert_date_format (pickup_dates text ! i) else [])
     \<and> del_date (process_template2 text stop_destinations ! i) =
         (if i < length (delivery_dates text) then convert_date_format (delivery_dates text ! i) else [])
     \<and> description (process_template2 text stop_destinations ! i) =
         (if i < length (pallet_data text) then pallet_data text ! i else [])"
  using assms
  by (simp add: process_template2_length process_template2_nth template2_record_def
        nth_or_empty_def Let_def convert_date_format_empty)

theorem template2_positional_pairing_witness:
  "Suc 0 < length (line_items template2_example)
   \<and> pickup_date (process_template2 template2_example [''W'', ''2, S''] ! 0) = ''20/10/2025''
   \<and> pickup_dates template2_example = [''Oct 20, 2025 11:59:00 PM'']
   \<and> pickup_date (process_template2 template2_example [''W'', ''2, S''] ! Suc 0) = []
   \<and> del_date (process_template2 template2_example [''W'', ''2, S''] ! Suc 0) = []
   \<and> description (process_template2 template2_example [''W'', ''2, S''] ! Suc 0) = []"
proof -
  have len: "Suc 0 < length (line_items template2_example)"
    using process_template2_length [of template2_example "[''W'', ''2, S'']"]
    by (simp add: template2_example_records)
  from template2_positional_pairing [OF len, of "[''W'', ''2, S'']"] len
  show ?thesis
    by (simp add: template2_example_records template2_example_scans)
qed

text \<open>
  C8. Every record of a Template-1 document carries the document-level pickup and delivery
  dates, the first entry of the stop table as origin and the second as destination, each
  empty when the table is too short.
\<close>

theorem process_template1_shared_fields:
  "\<forall>r \<in> set (process_template1 text stop_destinations).
      pickup_date r = first_group (search IGNORECASE pickup_on_pattern text)
    \<and> del_date r = first_group (search IGNORECASE deliver_on_pattern text)
    \<and> ship_from r = (if 0 < length stop_destinations then stop_destinations ! 0 else [])
    \<and> ship_to r = (if 1 < length stop_destinations then stop_destinations ! 1 else [])"
  by (auto simp: process_template1_def template1_record_def stop_at_def Let_def)

theorem process_template1_shared_fields_witness:
  "map pickup_date (process_template1 template1_example [''W'', ''S'']) = [''20/10/2025'']
   \<and> map ship_from (process_template1 template1_example [''W'', ''S'']) = [''W'']
   \<and> map ship_to (process_template1 template1_example [''W'', ''S'']) = [''S'']"
  using process_template1_shared_fields [of template1_example "[''W'', ''S'']"]
  by (simp add: template1_example_records)

section \<open>Envelopes of the entry points\<close>

lemma parse_pdf_one_of: "(result (parse_pdf e p) = None) \<noteq> (error (parse_pdf e p) = None)"
  by (simp add: parse_pdf_def error_envelope_def result_envelope_def Let_def
        split: sum.splits)

lemma parse_directory_one_of:
  "(result (parse_directory e d) = None) \<noteq> (error (parse_directory e d) = None)"
  by (simp add: parse_directory_def error_envelope_def result_envelope_def
        split: sum.splits)

lemma dir_entry_cases:
  "dir_entry e f =
     (case result (parse_pdf e f) of
        Some payload \<Rightarrow> Parsed payload
      | None \<Rightarrow> Failed f (the (error (parse_pdf e f))))"
  using parse_pdf_one_of [of e f]
  by (auto simp: dir_entry_def Let_def split: option.splits)

text \<open>
  C9. Both entry points return an envelope that holds exactly one of a result and an error,
  whatever the environment raises. The directory parser returns an error when the path
  does not exist, is not a directory or holds no PDF file; otherwise its result counts the
  files and holds one entry per file, in order: the payload of a parsed file, or the file
  and the error message of a file that failed.
\<close>

theorem entry_points_envelope:
  "(result (parse_pdf e p) = None) \<noteq> (error (parse_pdf e p) = None)
   \<and> (result (parse_directory e d) = None) \<noteq> (error (parse_directory e d) = None)
   \<and> (result (parse_directory e d) \<noteq> None \<longleftrightarrow>
        path_exists e d = Inr True \<and> path_is_dir e d = Inr True
        \<and> (\<exists>fs. glob_pdf e d = Inr fs \<and> fs \<noteq> []))
   \<and> (path_exists e d = Inr True \<and> path_is_dir e d = Inr True \<and> glob_pdf e d = Inr fs \<and> fs \<noteq> []
        \<longrightarrow> (\<exists>r. result (parse_directory e d) = Some r
               \<and> total_files r = length fs
               \<and> length (results r) = length fs
               \<and> (\<forall>i < length fs.
                    results r ! i =
                      (case result (parse_pdf e (fs ! i)) of
                         Some payload \<Rightarrow> Parsed payload
                       | None \<Rightarrow> Failed (fs ! i) (the (error (parse_pdf e (fs ! i))))))))"
proof (intro conjI impI)
  show "(result (parse_pdf e p) = None) \<noteq> (error (parse_pdf e p) = None)"
    by (rule parse_pdf_one_of)
  show "(result (parse_directory e d) = None) \<noteq> (error (parse_directory e d) = None)"
    by (rule parse_directory_one_of)
  show "result (parse_directory e d) \<noteq> None \<longleftrightarrow>
        path_exists e d = Inr True \<and> path_is_dir e d = Inr True
        \<and> (\<exists>fs. glob_pdf e d = Inr fs \<and> fs \<noteq> [])"
    by (auto simp: parse_directory_def error_envelope_def result_envelope_def split: sum.splits)
next
  assume a: "path_exists e d = Inr True \<and> path_is_dir e d = Inr True \<and> glob_pdf e d = Inr fs \<and> fs \<noteq> []"
  then have "result (parse_directory e d) =
      Some \<lparr>total_files = length fs, results = map (dir_entry e) fs,
            dir_processed_at = now_isoformat e\<rparr>"
    by (simp add: parse_directory_def result_envelope_def)
  then show "\<exists>r. result (parse_directory e d) = Some r
               \<and> total_files r = length fs
               \<and> length (results r) = length fs
               \<and> (\<forall>i < length fs.
                    results r ! i =
                      (case result (parse_pdf e (fs ! i)) of
                         Some payload \<Rightarrow> Parsed payload
                       | None \<Rightarrow> Failed (fs ! i) (the (error (parse_pdf e (fs ! i))))))"
    by (simp add: dir_entry_cases)
qed

lemma example_env_parse_a:
  "parse_pdf example_env ''in/a.pdf'' =
     \<lparr>result = Some \<lparr>template_type = ''Template-1'', records_count = 0, records = [],
          file_name = ''a.pdf'', processed_at = ''2025-10-20T11:59:00''\<rparr>,
      error = None, capability = ''parse_pdf''\<rparr>"
  by code_simp

lemma example_env_parse_b:
  "parse_pdf example_env ''in/b.pdf'' =
     \<lparr>result = None, error = Some ''EOF marker not found'', capability = ''parse_pdf''\<rparr>"
  by code_simp

theorem entry_points_envelope_witness:
  "(\<exists>r. result (parse_directory example_env ''in'') = Some r
      \<and> error (parse_directory example_env ''in'') = None
      \<and> total_files r = 2
      \<and> results r =
          [Parsed \<lparr>template_type = ''Template-1'', records_count = 0, records = [],
                   file_name = ''a.pdf'', processed_at = ''2025-10-20T11:59:00''\<rparr>,
           Failed ''in/b.pdf'' ''EOF marker not found''])
   \<and> result (parse_directory example_env ''out'') = None"
proof -
  have pre: "path_exists example_env ''in'' = Inr True \<and> path_is_dir example_env ''in'' = Inr True
      \<and> glob_pdf example_env ''in'' = Inr [''in/a.pdf'', ''in/b.pdf'']
      \<and> [''in/a.pdf'', ''in/b.pdf''] \<noteq> []"
    by (simp add: example_env_def)
  have pre': "path_is_dir example_env ''out'' \<noteq> Inr True"
    by (simp add: example_env_def)
  from entry_points_envelope [of example_env "''in/a.pdf''" "''in''" "[''in/a.pdf'', ''in/b.pdf'']"] pre
  obtain r where r: "result (parse_directory example_env ''in'') = Some r"
      "total_files r = 2" "length (results r) = 2"
      "\<forall>i < 2. results r ! i =
          (case result (parse_pdf example_env ([''in/a.pdf'', ''in/b.pdf''] ! i)) of
             Some payload \<Rightarrow> Parsed payload
           | None \<Rightarrow> Failed ([''in/a.pdf'', ''in/b.pdf''] ! i)
                       (the (error (parse_pdf example_env ([''in/a.pdf'', ''in/b.pdf''] ! i)))))"
    by auto
  from r(4) have r0: "results r ! 0 = Parsed \<lparr>template_type = ''Template-1'', records_count = 0,
        records = [], file_name = ''a.pdf'', processed_at = ''2025-10-20T11:59:00''\<rparr>"
    by (simp add: example_env_parse_a)
  from r(4) have "results r ! Suc 0 =
      (case result (parse_pdf example_env ([''in/a.pdf'', ''in/b.pdf''] ! Suc 0)) of
             Some payload \<Rightarrow> Parsed payload
           | None \<Rightarrow> Failed ([''in/a.pdf'', ''in/b.pdf''] ! Suc 0)
                       (the (error (parse_pdf example_env ([''in/a.pdf'', ''in/b.pdf''] ! Suc 0)))))"
    by (metis One_nat_def lessI numeral_2_eq_2)
  then have r1: "results r ! Suc 0 = Failed ''in/b.pdf'' ''EOF marker not found''"
    by (simp add: example_env_parse_b)
  have res: "results r = [results r ! 0, results r ! Suc 0]"
    using r(3) by (cases "results r"; cases "tl (results r)"; auto)
  have e: "error (parse_directory example_env ''in'') = None"
    using parse_directory_one_of [of example_env "''in''"] r(1) by auto
  have out: "result (parse_directory example_env ''out'') = None"
    using entry_points_envelope [of example_env "''in/a.pdf''" "''out''" "[]"] pre' by blast
  show ?thesis
    using r(1,2) r0 r1 res e out by auto
qed

section \<open>Stop table and date conversion at the failing inputs\<close>

text \<open>
  C5. A first block with stop number 0 finds the table empty: nothing is padded, and the
  assignment at index \<open>-1\<close> raises IndexError.
\<close>

theorem stop_zero_raises:
  "extract_stop_destinations ''Stop: 0 Destination: X Stop Location Memo:'' = Inl IndexError"
  by code_simp

text \<open>
  C4. A block with stop number 0 after a block with stop number 2 is written at index
  \<open>-1\<close>, the last slot, and replaces the destination of stop 2.
\<close>

theorem stop_zero_overwrites:
  "extract_stop_destinations
     ''Stop: 2 Destination: A Stop Location Memo: Stop: 0 Destination: B Stop Location Memo:''
   = Inr [[], ''B'']"
  by code_simp

text \<open>
  C6. A text that does not parse as a date comes back with its whitespace collapsed, not
  as it was given.
\<close>

theorem convert_date_format_not_original:
  "convert_date_format ''gar  bage'' = ''gar bage''"
  by code_simp

lemma convert_date_format_examples:
  "convert_date_format ''Oct 20, 2025 11:59:00 PM'' = ''20/10/2025''
   \<and> convert_date_format ''garbage'' = ''garbage''"
  by code_simp

section \<open>What the matcher returns\<close>

lemma lit_match_exact:
  "\<not> ignorecase fl \<Longrightarrow> lit_match fl w s = Some s' \<longleftrightarrow> s = w @ s'"
  by (induction fl w s rule: lit_match.induct) auto

lemma set_span_from:
  "set (drop lo (span_sufs p s)) = {s'. \<exists>u. s = u @ s' \<and> list_all p u \<and> lo \<le> length u}"
proof (induction s arbitrary: lo)
  case Nil
  then show ?case by (cases lo) auto
next
  case (Cons c s)
  show ?case
  proof (cases lo)
    case 0
    with Cons [of 0] show ?thesis
      by (auto simp: Cons_eq_append_conv)
  next
    case (Suc l)
    with Cons [of l] show ?thesis
      by (auto simp: Cons_eq_append_conv)
  qed
qed

lemma set_span_window:
  "set (drop lo (take (Suc h) (span_sufs p s)))
     = {s'. \<exists>u. s = u @ s' \<and> list_all p u \<and> lo \<le> length u \<and> length u \<le> h}"
proof (induction s arbitrary: lo h)
  case Nil
  then show ?case by (cases lo) auto
next
  case (Cons c s)
  show ?case
  proof (cases h)
    case 0
    then show ?thesis by (cases lo) (auto simp: Cons_eq_append_conv)
  next
    case h: (Suc h')
    show ?thesis
    proof (cases lo)
      case 0
      with h Cons [of 0 h'] show ?thesis
        by (auto simp: Cons_eq_append_conv)
    next
      case (Suc l)
      with h Cons [of l h'] show ?thesis
        by (auto simp: Cons_eq_append_conv)
    qed
  qed
qed

lemma in_rep_sufs:
  "s' \<in> set (rep_sufs p lo hi g s) \<longleftrightarrow>
     (\<exists>u. s = u @ s' \<and> list_all p u \<and> lo \<le> length u
          \<and> (case hi of None \<Rightarrow> True | Some h \<Rightarrow> length u \<le> h))"
  by (cases hi) (simp_all add: rep_sufs_def Let_def set_span_from set_span_window)

lemma in_rmatch_Seq:
  "(c', s') \<in> set (rmatch fl n (Seq a b) c s) \<longleftrightarrow>
     (\<exists>cm m. (cm, m) \<in> set (rmatch fl n a c s) \<and> (c', s') \<in> set (rmatch fl n b cm m))"
  by auto

lemma in_rmatch_Rep:
  "(c', s') \<in> set (rmatch fl n (Rep k lo hi g) c s) \<longleftrightarrow>
     c' = c \<and> (\<exists>u. s = u @ s' \<and> list_all (cls_ok fl k) u \<and> lo \<le> length u
                  \<and> (case hi of None \<Rightarrow> True | Some h \<Rightarrow> length u \<le> h))"
  by (auto simp: in_rep_sufs)

lemma in_rmatch_Grp:
  "(c', s') \<in> set (rmatch fl n (Grp i a) c s) \<longleftrightarrow>
     (\<exists>c0. (c0, s') \<in> set (rmatch fl n a c s) \<and> c' = (i, take (length s - length s') s) # c0)"
  by auto

lemma in_rmatch_Lit:
  "\<not> ignorecase fl \<Longrightarrow>
   (c', s') \<in> set (rmatch fl n (Lit w) c s) \<longleftrightarrow> c' = c \<and> s = w @ s'"
  using lit_match_exact [of fl w s s'] by (auto split: option.splits)

lemma in_rmatch_Bol:
  "(c', s') \<in> set (rmatch fl n Bol c s) \<longleftrightarrow> c' = c \<and> s' = s \<and> length s = n"
  by auto

lemma in_rmatch_Eol:
  "(c', s') \<in> set (rmatch fl n Eol c s) \<longleftrightarrow>
     c' = c \<and> s' = s \<and> (s = [] \<or> (\<exists>t. s = CHR 0x0A # t \<and> (t = [] \<or> multiline fl)))"
  by (auto split: list.splits)

text \<open>The same facts for an expression at the head of a sequence.\<close>

lemma seq_Lit:
  assumes "\<not> ignorecase fl"
  shows "(c', s') \<in> set (rmatch fl n (Seq (Lit w) b) c s) \<longleftrightarrow>
     (\<exists>m. s = w @ m \<and> (c', s') \<in> set (rmatch fl n b c m))"
proof -
  have "\<And>cm m. (cm, m) \<in> set (rmatch fl n (Lit w) c s) \<longleftrightarrow> cm = c \<and> s = w @ m"
    by (rule in_rmatch_Lit [OF assms])
  then show ?thesis
    by (simp only: in_rmatch_Seq) blast
qed

lemma seq_Rep:
  "(c', s') \<in> set (rmatch fl n (Seq (Rep k lo hi g) b) c s) \<longleftrightarrow>
     (\<exists>u m. s = u @ m \<and> list_all (cls_ok fl k) u \<and> lo \<le> length u
            \<and> (case hi of None \<Rightarrow> True | Some h \<Rightarrow> length u \<le> h)
            \<and> (c', s') \<in> set (rmatch fl n b c m))"
  by (simp only: in_rmatch_Seq in_rmatch_Rep) blast

lemma seq_Grp_Rep:
  "(c', s') \<in> set (rmatch fl n (Seq (Grp i (Rep k lo hi g)) b) c s) \<longleftrightarrow>
     (\<exists>u m. s = u @ m \<and> list_all (cls_ok fl k) u \<and> lo \<le> length u
            \<and> (case hi of None \<Rightarrow> True | Some h \<Rightarrow> length u \<le> h)
            \<and> (c', s') \<in> set (rmatch fl n b ((i, u) # c) m))"
  by (simp only: in_rmatch_Seq in_rmatch_Grp in_rmatch_Rep) fastforce

lemma seq_Bol:
  "(c', s') \<in> set (rmatch fl n (Seq Bol b) c s) \<longleftrightarrow>
     length s = n \<and> (c', s') \<in> set (rmatch fl n b c s)"
  by (simp only: in_rmatch_Seq in_rmatch_Bol) blast

lemma seq_Eol:
  "(c', s') \<in> set (rmatch fl n (Seq Eol b) c s) \<longleftrightarrow>
     (s = [] \<or> (\<exists>t. s = CHR 0x0A # t \<and> (t = [] \<or> multiline fl)))
     \<and> (c', s') \<in> set (rmatch fl n b c s)"
  by (simp only: in_rmatch_Seq in_rmatch_Eol) blast

lemma in_rmatch_Lit_Nil:
  "(c', s') \<in> set (rmatch fl n (Lit []) c s) \<longleftrightarrow> c' = c \<and> s' = s"
  by auto

section \<open>Search\<close>

lemma match_at_None: "match_at fl n r s = None \<longleftrightarrow> rmatch fl n r [] s = []"
  by (simp add: match_at_def split: list.splits)

lemma match_at_Some:
  assumes "match_at fl n r s = Some m"
  shows "(m_caps m, m_rest m) \<in> set (rmatch fl n r [] s)
         \<and> m_text m = take (length s - length (m_rest m)) s"
  using assms by (auto simp: match_at_def split: list.splits)

lemma search_from_None:
  "search_from fl n r s = None \<longleftrightarrow> (\<forall>pre t. s = pre @ t \<longrightarrow> rmatch fl n r [] t = [])"
proof (induction s)
  case Nil
  then show ?case by (simp add: match_at_None)
next
  case (Cons x s)
  show ?case
  proof
    assume a: "search_from fl n r (x # s) = None"
    then have h: "rmatch fl n r [] (x # s) = []" and t: "search_from fl n r s = None"
      by (auto simp: match_at_None split: option.splits)
    show "\<forall>pre t. x # s = pre @ t \<longrightarrow> rmatch fl n r [] t = []"
    proof (intro allI impI)
      fix pre t assume e: "x # s = pre @ t"
      show "rmatch fl n r [] t = []"
      proof (cases pre)
        case Nil
        with e h show ?thesis by simp
      next
        case (Cons y pre')
        with e have "s = pre' @ t" by simp
        with t Cons.IH show ?thesis by blast
      qed
    qed
  next
    assume a: "\<forall>pre t. x # s = pre @ t \<longrightarrow> rmatch fl n r [] t = []"
    then have h: "rmatch fl n r [] (x # s) = []" by (metis append_Nil)
    have "\<forall>pre t. s = pre @ t \<longrightarrow> rmatch fl n r [] t = []"
      using a by (metis append_Cons)
    with Cons.IH have "search_from fl n r s = None" by blast
    with h show "search_from fl n r (x # s) = None"
      by (simp add: match_at_None [symmetric])
  qed
qed

lemma search_from_Some:
  assumes "search_from fl n r s = Some m"
  shows "\<exists>pre t. s = pre @ t \<and> (m_caps m, m_rest m) \<in> set (rmatch fl n r [] t)"
  using assms
proof (induction s)
  case Nil
  then show ?case using match_at_Some by fastforce
next
  case (Cons x s)
  show ?case
  proof (cases "match_at fl n r (x # s)")
    case None
    with Cons.prems have "search_from fl n r s = Some m" by simp
    with Cons.IH obtain pre t where "s = pre @ t"
        "(m_caps m, m_rest m) \<in> set (rmatch fl n r [] t)" by blast
    then have "x # s = (x # pre) @ t \<and> (m_caps m, m_rest m) \<in> set (rmatch fl n r [] t)"
      by simp
    then show ?thesis by blast
  next
    case (Some m')
    with Cons.prems have "m' = m" by simp
    with Some match_at_Some [of fl n r "x # s" m]
    have "x # s = [] @ (x # s) \<and> (m_caps m, m_rest m) \<in> set (rmatch fl n r [] (x # s))"
      by simp
    then show ?thesis by blast
  qed
qed

lemma search_None:
  "search fl r s = None \<longleftrightarrow> (\<forall>pre t. s = pre @ t \<longrightarrow> rmatch fl (length s) r [] t = [])"
  by (simp add: search_def search_from_None)

lemma search_Some:
  "search fl r s = Some m \<Longrightarrow>
   \<exists>pre t. s = pre @ t \<and> (m_caps m, m_rest m) \<in> set (rmatch fl (length s) r [] t)"
  by (simp add: search_def search_from_Some)

section \<open>Template detection\<close>

lemma cls_ok_Space: "cls_ok fl Space = is_space" by (rule ext) simp
lemma cls_ok_Digit: "cls_ok fl Digit = is_digit" by (rule ext) simp
lemma cls_ok_Word: "cls_ok fl Word = is_word" by (rule ext) simp

lemma nonempty_iff: "xs \<noteq> [] \<longleftrightarrow> (\<exists>a b. (a, b) \<in> set xs)"
  by (cases xs) auto

lemma exact_bounds: "((k::nat) \<le> n \<and> n \<le> k \<and> R) = (n = k \<and> R)"
  by auto

lemma one_le_length: "(Suc 0 \<le> length u) = (u \<noteq> [])"
  by (cases u) auto

lemma one_or_two:
  "(u \<noteq> [] \<and> length u \<le> 2 \<and> R) = ((length u = 1 \<or> length u = 2) \<and> R)"
proof -
  have "u \<noteq> [] \<longleftrightarrow> 0 < length u" by simp
  then show ?thesis by (simp only:) arith
qed

lemma template2_pattern_shape:
  "rmatch no_flags n template2_pattern [] t \<noteq> [] \<longleftrightarrow>
   (\<exists>ws1 ws2 mon ws3 day ws4 year ws5 hh mm ss post.
      t = ''Pickup'' @ ws1 @ '':'' @ ws2 @ mon @ ws3 @ day @ '','' @ ws4 @ year @ ws5
            @ hh @ '':'' @ mm @ '':'' @ ss @ post
      \<and> list_all is_space ws1 \<and> list_all is_space ws2
      \<and> list_all is_word mon \<and> length mon = 3
      \<and> list_all is_space ws3 \<and> ws3 \<noteq> []
      \<and> list_all is_digit day \<and> (length day = 1 \<or> length day = 2)
      \<and> list_all is_space ws4 \<and> ws4 \<noteq> []
      \<and> list_all is_digit year \<and> length year = 4
      \<and> list_all is_space ws5 \<and> ws5 \<noteq> []
      \<and> list_all is_digit hh \<and> (length hh = 1 \<or> length hh = 2)
      \<and> list_all is_digit mm \<and> length mm = 2
      \<and> list_all is_digit ss \<and> length ss = 2)"
  apply (simp only: nonempty_iff)
  apply (simp del: rmatch.simps add: template2_pattern_def cat_def seq_Lit seq_Rep
      in_rmatch_Lit_Nil no_flags_def cls_ok_Space cls_ok_Digit cls_ok_Word
      exact_bounds one_or_two one_le_length)
  apply (rule iffI)
   apply (elim exE conjE)
   apply hypsubst
   apply (intro exI conjI)
                      apply (rule refl)
                      apply assumption+
  apply (elim exE conjE)
  apply hypsubst
  apply (intro exI conjI)
                      apply (rule refl)
                      apply (assumption | rule refl)+
  done


text \<open>
  C3 (amended). The detector returns one of the two labels. It returns \<open>Template-2\<close>
  exactly when the text contains, in this case, \<open>Pickup\<close>, optional whitespace, a colon,
  optional whitespace, three word characters (letters, digits or underscore), whitespace,
  one or two digits, a comma, whitespace, four digits, whitespace, one or two digits, a
  colon, two digits, a colon and two digits.
\<close>

theorem detect_template_characterised:
  "(detect_template text = ''Template-1'' \<or> detect_template text = ''Template-2'')
   \<and> (detect_template text = ''Template-2'' \<longleftrightarrow>
       (\<exists>pre ws1 ws2 mon ws3 day ws4 year ws5 hh mm ss post.
          text = pre @ ''Pickup'' @ ws1 @ '':'' @ ws2 @ mon @ ws3 @ day @ '','' @ ws4 @ year
                   @ ws5 @ hh @ '':'' @ mm @ '':'' @ ss @ post
          \<and> list_all is_space ws1 \<and> list_all is_space ws2
          \<and> list_all is_word mon \<and> length mon = 3
          \<and> list_all is_space ws3 \<and> ws3 \<noteq> []
          \<and> list_all is_digit day \<and> (length day = 1 \<or> length day = 2)
          \<and> list_all is_space ws4 \<and> ws4 \<noteq> []
          \<and> list_all is_digit year \<and> length year = 4
          \<and> list_all is_space ws5 \<and> ws5 \<noteq> []
          \<and> list_all is_digit hh \<and> (length hh = 1 \<or> length hh = 2)
          \<and> list_all is_digit mm \<and> length mm = 2
          \<and> list_all is_digit ss \<and> length ss = 2))"
proof
  show "detect_template text = ''Template-1'' \<or> detect_template text = ''Template-2''"
    by (simp add: detect_template_def split: option.splits)
next
  have "detect_template text = ''Template-2'' \<longleftrightarrow> search no_flags template2_pattern text \<noteq> None"
    by (simp add: detect_template_def split: option.splits)
  also have "\<dots> \<longleftrightarrow>
      (\<exists>pre t. text = pre @ t \<and> rmatch no_flags (length text) template2_pattern [] t \<noteq> [])"
    by (simp only: search_None not_all not_imp)
  also have "\<dots> \<longleftrightarrow>
       (\<exists>pre ws1 ws2 mon ws3 day ws4 year ws5 hh mm ss post.
          text = pre @ ''Pickup'' @ ws1 @ '':'' @ ws2 @ mon @ ws3 @ day @ '','' @ ws4 @ year
                   @ ws5 @ hh @ '':'' @ mm @ '':'' @ ss @ post
          \<and> list_all is_space ws1 \<and> list_all is_space ws2
          \<and> list_all is_word mon \<and> length mon = 3
          \<and> list_all is_space ws3 \<and> ws3 \<noteq> []
          \<and> list_all is_digit day \<and> (length day = 1 \<or> length day = 2)
          \<and> list_all is_space ws4 \<and> ws4 \<noteq> []
          \<and> list_all is_digit year \<and> length year = 4
          \<and> list_all is_space ws5 \<and> ws5 \<noteq> []
          \<and> list_all is_digit hh \<and> (length hh = 1 \<or> length hh = 2)
          \<and> list_all is_digit mm \<and> length mm = 2
          \<and> list_all is_digit ss \<and> length ss = 2)"
    apply (simp only: template2_pattern_shape)
    apply (rule iffI)
     apply (elim exE conjE)
     apply hypsubst
     apply (intro exI conjI)
                        apply (rule refl)
                        apply assumption+
    apply (elim exE conjE)
    apply hypsubst
    apply (intro exI conjI)
                        apply (rule refl)
                        apply (rule refl)
                        apply assumption+
    done
  finally show "detect_template text = ''Template-2'' \<longleftrightarrow>
       (\<exists>pre ws1 ws2 mon ws3 day ws4 year ws5 hh mm ss post.
          text = pre @ ''Pickup'' @ ws1 @ '':'' @ ws2 @ mon @ ws3 @ day @ '','' @ ws4 @ year
                   @ ws5 @ hh @ '':'' @ mm @ '':'' @ ss @ post
          \<and> list_all is_space ws1 \<and> list_all is_space ws2
          \<and> list_all is_word mon \<and> length mon = 3
          \<and> list_all is_space ws3 \<and> ws3 \<noteq> []
          \<and> list_all is_digit day \<and> (length day = 1 \<or> length day = 2)
          \<and> list_all is_space ws4 \<and> ws4 \<noteq> []
          \<and> list_all is_digit year \<and> length year = 4
          \<and> list_all is_space ws5 \<and> ws5 \<noteq> []
          \<and> list_all is_digit hh \<and> (length hh = 1 \<or> length hh = 2)
          \<and> list_all is_digit mm \<and> length mm = 2
          \<and> list_all is_digit ss \<and> length ss = 2)" .
qed

theorem detect_template_characterised_witness:
  "detect_template ''Pickup : Oct 20, 2025 11:59:00 PM'' = ''Template-2''
   \<and> detect_template ''Pickup On : 20/10/2025'' = ''Template-1''"
proof -
  have e: "detect_template ''Pickup : Oct 20, 2025 11:59:00 PM'' = ''Template-2''
   \<and> detect_template ''Pickup On : 20/10/2025'' = ''Template-1''"
    by code_simp
  show ?thesis
    using detect_template_characterised [of "''Pickup : Oct 20, 2025 11:59:00 PM''"] e
    by simp
qed

text \<open>
  Case matters and the month need not be letters: a lower-case \<open>pickup\<close> is not
  recognised, and three digits are accepted in the place of the month.
\<close>

theorem detect_template_counterexample:
  "detect_template ''pickup: Oct 20, 2025 11:59:00 PM'' = ''Template-1''
   \<and> detect_template ''Pickup: 123 20, 2025 11:59:00 PM'' = ''Template-2''"
  by code_simp

section \<open>The vendor patterns, shape by shape\<close>

lemma cls_ok_AnyChar: "\<not> dotall fl \<Longrightarrow> cls_ok fl AnyChar = not_newline"
  by (rule ext) (simp add: not_newline_def)

lemma pattern_with_number_set:
  "(c', s') \<in> set (rmatch no_flags n pattern_with_number [] t) \<longleftrightarrow>
     length t = n \<and>
     (\<exists>d ws1 ws2 name ws3 ws4 k.
        t = d @ ws1 @ ''-'' @ ws2 @ name @ ws3 @ ''-'' @ ws4 @ k @ s'
        \<and> list_all is_digit d \<and> d \<noteq> [] \<and> list_all is_space ws1 \<and> list_all is_space ws2
        \<and> list_all not_newline name \<and> list_all is_space ws3 \<and> list_all is_space ws4
        \<and> list_all is_digit k \<and> k \<noteq> [] \<and> c' = [(1, name)])"
  apply (simp del: rmatch.simps add: pattern_with_number_def cat_def seq_Bol seq_Lit seq_Rep
      seq_Grp_Rep in_rmatch_Lit_Nil no_flags_def cls_ok_Space cls_ok_Digit cls_ok_AnyChar
      one_le_length)
  apply (rule iffI)
   apply (elim exE conjE)
   apply hypsubst
   apply (intro exI conjI)
             apply (rule refl)
            apply (assumption | rule refl)+
  apply (elim exE conjE)
  apply hypsubst
  apply (intro exI conjI)
            apply (rule refl)
           apply (assumption | rule refl)+
  done

lemma pattern_no_number_set:
  "(c', s') \<in> set (rmatch no_flags n pattern_no_number [] t) \<longleftrightarrow>
     length t = n \<and>
     (\<exists>name ws1 ws2 k ws3.
        t = name @ ws1 @ ''-'' @ ws2 @ k @ ws3 @ ''-'' @ s'
        \<and> list_all not_newline name \<and> list_all is_space ws1 \<and> list_all is_space ws2
        \<and> list_all is_digit k \<and> k \<noteq> [] \<and> list_all is_space ws3 \<and> c' = [(1, name)])"
  apply (simp del: rmatch.simps add: pattern_no_number_def cat_def seq_Bol seq_Lit seq_Rep
      seq_Grp_Rep in_rmatch_Lit_Nil no_flags_def cls_ok_Space cls_ok_Digit cls_ok_AnyChar
      one_le_length)
  apply (rule iffI)
   apply (elim exE conjE)
   apply hypsubst
   apply (intro exI conjI)
          apply (rule refl)
         apply (assumption | rule refl)+
  apply (elim exE conjE)
  apply hypsubst
  apply (intro exI conjI)
         apply (rule refl)
        apply (assumption | rule refl)+
  done

lemma simple_pattern_set:
  "(c', s') \<in> set (rmatch no_flags n simple_pattern [] t) \<longleftrightarrow>
     length t = n \<and>
     (\<exists>d ws1 ws2 name.
        t = d @ ws1 @ ''-'' @ ws2 @ name @ s'
        \<and> list_all is_digit d \<and> d \<noteq> [] \<and> list_all is_space ws1 \<and> list_all is_space ws2
        \<and> list_all not_newline name \<and> name \<noteq> [] \<and> (s' = [] \<or> s' = [CHR 0x0A])
        \<and> c' = [(1, name)])"
  apply (simp del: rmatch.simps add: simple_pattern_def cat_def seq_Bol seq_Lit seq_Rep
      seq_Grp_Rep seq_Eol in_rmatch_Lit_Nil no_flags_def cls_ok_Space cls_ok_Digit cls_ok_AnyChar
      one_le_length)
  apply (rule iffI)
   apply (elim exE conjE)
   apply hypsubst
   apply (intro exI conjI)
           apply (rule refl)
          apply (assumption | rule refl)+
  apply (elim exE conjE)
  apply hypsubst
  apply (intro exI conjI)
          apply (rule refl)
         apply (assumption | rule refl)+
  done

section \<open>Stripping and collapsing\<close>

lemma lstrip_pad: "list_all is_space l \<Longrightarrow> lstrip (l @ x) = lstrip x"
  by (simp add: lstrip_def dropWhile_append2 list_all_iff)

lemma rstrip_pad: "list_all is_space t \<Longrightarrow> rstrip (x @ t) = rstrip x"
  using dropWhile_append2 [of "rev t" is_space "rev x"]
  by (simp add: rstrip_def list_all_iff)

lemma lstrip_all_space: "list_all is_space x \<Longrightarrow> lstrip x = []"
  by (simp add: lstrip_def list_all_iff)

lemma lstrip_append_right:
  assumes "list_all is_space t"
  shows "rstrip (lstrip (x @ t)) = rstrip (lstrip x)"
proof (cases "list_all is_space x")
  case True
  with assms have "list_all is_space (x @ t)" by simp
  with True show ?thesis by (simp add: lstrip_all_space)
next
  case False
  then have "\<exists>y \<in> set x. \<not> is_space y" by (simp add: list_all_iff)
  then have "dropWhile is_space (x @ t) = dropWhile is_space x @ t"
    by (metis dropWhile_append1)
  with assms show ?thesis by (simp add: lstrip_def rstrip_pad)
qed

lemma strip_pad:
  "list_all is_space l \<Longrightarrow> list_all is_space t \<Longrightarrow> strip (l @ x @ t) = strip x"
  by (simp add: strip_def lstrip_pad lstrip_append_right)

lemma lstrip_decomp: "\<exists>l. x = l @ lstrip x \<and> list_all is_space l"
proof -
  have "x = takeWhile is_space x @ lstrip x" by (simp add: lstrip_def)
  moreover have "list_all is_space (takeWhile is_space x)"
    by (simp add: list_all_iff) (meson set_takeWhileD)
  ultimately show ?thesis by blast
qed

lemma rstrip_decomp: "\<exists>t. x = rstrip x @ t \<and> list_all is_space t"
proof -
  have "rev x = takeWhile is_space (rev x) @ dropWhile is_space (rev x)" by simp
  then have "x = rev (dropWhile is_space (rev x)) @ rev (takeWhile is_space (rev x))"
    by (metis rev_append rev_rev_ident)
  moreover have "list_all is_space (rev (takeWhile is_space (rev x)))"
    by (simp add: list_all_iff) (meson set_takeWhileD)
  ultimately show ?thesis by (auto simp: rstrip_def)
qed

lemma strip_decomp:
  "\<exists>l t. x = l @ strip x @ t \<and> list_all is_space l \<and> list_all is_space t"
proof -
  obtain l where l: "x = l @ lstrip x" "list_all is_space l" using lstrip_decomp by blast
  obtain t where t: "lstrip x = rstrip (lstrip x) @ t" "list_all is_space t"
    using rstrip_decomp by blast
  from l t have "x = l @ strip x @ t" by (simp add: strip_def)
  with l t show ?thesis by blast
qed

lemma strip_idem: "strip (strip x) = strip x"
proof -
  obtain l t where "x = l @ strip x @ t" "list_all is_space l" "list_all is_space t"
    using strip_decomp by blast
  then show ?thesis by (metis strip_pad)
qed

lemma is_space_blank: "is_space CHR '' ''"
  by (simp add: is_space_def code_def)

lemma tidy_collapse_run: "tidy b (collapse_run b s)"
  by (induction s arbitrary: b) (auto simp: is_space_blank)

lemma tidy_fixed: "tidy b x \<Longrightarrow> collapse_run b x = x"
  by (induction x arbitrary: b) (auto split: if_splits)

lemma tidy_weaken: "tidy b x \<Longrightarrow> tidy False x"
  by (cases x) (auto split: if_splits)

lemma tidy_prefix: "tidy b (x @ y) \<Longrightarrow> tidy b x"
  by (induction x arbitrary: b) (auto split: if_splits)

lemma tidy_suffix: "tidy b (x @ y) \<Longrightarrow> tidy False y"
  by (induction x arbitrary: b) (auto split: if_splits intro: tidy_weaken)

lemma tidy_middle: "tidy b (x @ y @ z) \<Longrightarrow> tidy False y"
  using tidy_suffix tidy_prefix by blast

lemma is_space_newline: "is_space (CHR 0x0A)"
  by (simp add: is_space_def code_def)

lemma tidy_no_newline: "tidy b x \<Longrightarrow> list_all not_newline x"
  by (induction x arbitrary: b) (auto simp: not_newline_def is_space_newline split: if_splits)

lemma tidy_cleaned: "tidy False (strip (collapse_ws s))"
proof -
  obtain l t where "collapse_ws s = l @ strip (collapse_ws s) @ t"
    using strip_decomp by blast
  moreover have "tidy False (collapse_ws s)"
    by (simp add: collapse_ws_def tidy_collapse_run)
  ultimately show ?thesis by (metis tidy_middle)
qed

lemma collapse_ws_tidy: "tidy False x \<Longrightarrow> collapse_ws x = x"
  by (simp add: collapse_ws_def tidy_fixed)

section \<open>Vendor names: priority and idempotence\<close>

lemma group_one: "m_caps m = [(1, name)] \<Longrightarrow> group m 1 = name"
  by (simp add: group_def)

lemma case1_member:
  assumes "c = pre @ t"
    and "(c', s') \<in> set (rmatch no_flags (length c) pattern_with_number [] t)"
  shows "\<exists>name. c' = [(1, name)] \<and> numbered_with_stop c name"
proof -
  from assms(2) have len: "length t = length c" by (simp add: pattern_with_number_set)
  with assms(1) have "t = c" by simp
  with assms(2) show ?thesis
    unfolding pattern_with_number_set numbered_with_stop_def by blast
qed

lemma case1_intro:
  assumes "numbered_with_stop c name"
  shows "rmatch no_flags (length c) pattern_with_number [] c \<noteq> []"
proof -
  from assms obtain s' where "([(1, name)], s') \<in> set (rmatch no_flags (length c) pattern_with_number [] c)"
    unfolding pattern_with_number_set numbered_with_stop_def by blast
  then show ?thesis by auto
qed

lemma case2_member:
  assumes "c = pre @ t"
    and "(c', s') \<in> set (rmatch no_flags (length c) pattern_no_number [] t)"
  shows "\<exists>name. c' = [(1, name)] \<and> name_with_stop c name"
proof -
  from assms(2) have len: "length t = length c" by (simp add: pattern_no_number_set)
  with assms(1) have "t = c" by simp
  with assms(2) show ?thesis
    unfolding pattern_no_number_set name_with_stop_def by blast
qed

lemma case2_intro:
  assumes "name_with_stop c name"
  shows "rmatch no_flags (length c) pattern_no_number [] c \<noteq> []"
proof -
  from assms obtain s' where "([(1, name)], s') \<in> set (rmatch no_flags (length c) pattern_no_number [] c)"
    unfolding pattern_no_number_set name_with_stop_def by blast
  then show ?thesis by auto
qed

lemma case3_member:
  assumes "c = pre @ t"
    and "(c', s') \<in> set (rmatch no_flags (length c) simple_pattern [] t)"
  shows "\<exists>name. c' = [(1, name)] \<and> numbered_simple c name"
proof -
  from assms(2) have len: "length t = length c" by (simp add: simple_pattern_set)
  with assms(1) have "t = c" by simp
  with assms(2) show ?thesis
    unfolding simple_pattern_set numbered_simple_def by blast
qed

lemma case3_intro:
  assumes "numbered_simple c name"
  shows "rmatch no_flags (length c) simple_pattern [] c \<noteq> []"
proof -
  from assms obtain s' where "([(1, name)], s') \<in> set (rmatch no_flags (length c) simple_pattern [] c)"
    unfolding simple_pattern_set numbered_simple_def by blast
  then show ?thesis by auto
qed

lemma case1_None:
  "search no_flags pattern_with_number c = None \<longleftrightarrow> \<not> (\<exists>name. numbered_with_stop c name)"
proof
  assume "search no_flags pattern_with_number c = None"
  then have "\<forall>pre t. c = pre @ t \<longrightarrow> rmatch no_flags (length c) pattern_with_number [] t = []"
    by (simp only: search_None)
  then have "rmatch no_flags (length c) pattern_with_number [] c = []"
    by (metis append_Nil)
  then show "\<not> (\<exists>name. numbered_with_stop c name)"
    using case1_intro by blast
next
  assume n: "\<not> (\<exists>name. numbered_with_stop c name)"
  have "rmatch no_flags (length c) pattern_with_number [] t = []" if "c = pre @ t" for pre t
  proof (rule ccontr)
    assume "rmatch no_flags (length c) pattern_with_number [] t \<noteq> []"
    then obtain c' s' where "(c', s') \<in> set (rmatch no_flags (length c) pattern_with_number [] t)"
      by (auto simp: nonempty_iff)
    with that case1_member n show False by blast
  qed
  then show "search no_flags pattern_with_number c = None"
    by (simp only: search_None) blast
qed


lemma case2_None:
  "search no_flags pattern_no_number c = None \<longleftrightarrow> \<not> (\<exists>name. name_with_stop c name)"
proof
  assume "search no_flags pattern_no_number c = None"
  then have "\<forall>pre t. c = pre @ t \<longrightarrow> rmatch no_flags (length c) pattern_no_number [] t = []"
    by (simp only: search_None)
  then have "rmatch no_flags (length c) pattern_no_number [] c = []"
    by (metis append_Nil)
  then show "\<not> (\<exists>name. name_with_stop c name)"
    using case2_intro by blast
next
  assume n: "\<not> (\<exists>name. name_with_stop c name)"
  have "rmatch no_flags (length c) pattern_no_number [] t = []" if "c = pre @ t" for pre t
  proof (rule ccontr)
    assume "rmatch no_flags (length c) pattern_no_number [] t \<noteq> []"
    then obtain c' s' where "(c', s') \<in> set (rmatch no_flags (length c) pattern_no_number [] t)"
      by (auto simp: nonempty_iff)
    with that case2_member n show False by blast
  qed
  then show "search no_flags pattern_no_number c = None"
    by (simp only: search_None) blast
qed


lemma case3_None:
  "search no_flags simple_pattern c = None \<longleftrightarrow> \<not> (\<exists>name. numbered_simple c name)"
proof
  assume "search no_flags simple_pattern c = None"
  then have "\<forall>pre t. c = pre @ t \<longrightarrow> rmatch no_flags (length c) simple_pattern [] t = []"
    by (simp only: search_None)
  then have "rmatch no_flags (length c) simple_pattern [] c = []"
    by (metis append_Nil)
  then show "\<not> (\<exists>name. numbered_simple c name)"
    using case3_intro by blast
next
  assume n: "\<not> (\<exists>name. numbered_simple c name)"
  have "rmatch no_flags (length c) simple_pattern [] t = []" if "c = pre @ t" for pre t
  proof (rule ccontr)
    assume "rmatch no_flags (length c) simple_pattern [] t \<noteq> []"
    then obtain c' s' where "(c', s') \<in> set (rmatch no_flags (length c) simple_pattern [] t)"
      by (auto simp: nonempty_iff)
    with that case3_member n show False by blast
  qed
  then show "search no_flags simple_pattern c = None"
    by (simp only: search_None) blast
qed

lemma case3_Some:
  assumes "search no_flags simple_pattern c = Some m"
  shows "numbered_simple c (group m 1)"
proof -
  from assms obtain pre t where "c = pre @ t"
      "(m_caps m, m_rest m) \<in> set (rmatch no_flags (length c) simple_pattern [] t)"
    using search_Some by blast
  then obtain name where "m_caps m = [(1, name)]" "numbered_simple c name"
    using case3_member by blast
  then show ?thesis using group_one by metis
qed



lemma strip_Nil: "strip [] = []"
  by (simp add: strip_def lstrip_def rstrip_def)


lemma vendor_case3:
  assumes "strip s \<noteq> []"
    and "\<not> (\<exists>name. numbered_with_stop (strip (collapse_ws s)) name)"
    and "\<not> (\<exists>name. name_with_stop (strip (collapse_ws s)) name)"
    and "\<exists>name. numbered_simple (strip (collapse_ws s)) name"
  shows "\<exists>g. numbered_simple (strip (collapse_ws s)) g \<and> extract_vendor_name s = strip g"
proof -
  from assms(1) have s: "s \<noteq> []" using strip_Nil by auto
  from assms(2) have n1: "search no_flags pattern_with_number (strip (collapse_ws s)) = None"
    using case1_None by blast
  from assms(3) have n2: "search no_flags pattern_no_number (strip (collapse_ws s)) = None"
    using case2_None by blast
  from assms(4) obtain m where m: "search no_flags simple_pattern (strip (collapse_ws s)) = Some m"
    using case3_None by (metis not_Some_eq)
  with assms(1) s n1 n2 have "extract_vendor_name s = strip (group m 1)"
    by (simp add: extract_vendor_name_def Let_def)
  with case3_Some [OF m] show ?thesis by blast
qed

lemma vendor_fallback:
  assumes "strip s \<noteq> []"
    and "\<not> (\<exists>name. numbered_with_stop (strip (collapse_ws s)) name)"
    and "\<not> (\<exists>name. name_with_stop (strip (collapse_ws s)) name)"
    and "\<not> (\<exists>name. numbered_simple (strip (collapse_ws s)) name)"
  shows "extract_vendor_name s = strip (collapse_ws s)"
proof -
  from assms(1) have s: "s \<noteq> []" using strip_Nil by auto
  from assms have "search no_flags pattern_with_number (strip (collapse_ws s)) = None"
      "search no_flags pattern_no_number (strip (collapse_ws s)) = None"
      "search no_flags simple_pattern (strip (collapse_ws s)) = None"
    using case1_None case2_None case3_None by blast+
  with assms(1) s show ?thesis
    by (simp add: extract_vendor_name_def Let_def)
qed

lemma extract_vendor_name_Nil: "extract_vendor_name [] = []"
  by (simp add: extract_vendor_name_def)

text \<open>
  C10. Where the collapsed and trimmed input is of the third shape and of neither of the
  first two, the extractor returns its own result unchanged when applied to it again.
\<close>

theorem extract_vendor_name_idempotent:
  assumes blank: "strip s \<noteq> []"
    and no1: "\<not> (\<exists>name. numbered_with_stop (strip (collapse_ws s)) name)"
    and no2: "\<not> (\<exists>name. name_with_stop (strip (collapse_ws s)) name)"
    and is3: "\<exists>name. numbered_simple (strip (collapse_ws s)) name"
  shows "extract_vendor_name (extract_vendor_name s) = extract_vendor_name s"
proof -
  define c where "c = strip (collapse_ws s)"
  obtain g where g: "numbered_simple c g" and ex: "extract_vendor_name s = strip g"
    using vendor_case3 [OF blank no1 no2 is3] unfolding c_def by blast
  define r where "r = strip g"
  from g obtain d ws1 ws2 e where c: "c = d @ ws1 @ ''-'' @ ws2 @ g @ e"
    and d: "list_all is_digit d" "d \<noteq> []" and w1: "list_all is_space ws1"
    and w2: "list_all is_space ws2"
    unfolding numbered_simple_def by blast
  obtain l t where gl: "g = l @ r @ t" and l: "list_all is_space l" and t: "list_all is_space t"
    using strip_decomp unfolding r_def by blast
  have tc: "tidy False c" unfolding c_def by (rule tidy_cleaned)
  then have nn: "list_all not_newline c" by (rule tidy_no_newline)
  have cr: "c = (d @ ws1 @ ''-'' @ ws2 @ l) @ r @ (t @ e)"
    using c gl by simp
  with tc have "tidy False r" by (metis tidy_middle)
  then have col: "collapse_ws r = r" by (rule collapse_ws_tidy)
  have str: "strip r = r" unfolding r_def by (rule strip_idem)
  have "extract_vendor_name r = r"
  proof (cases "r = []")
    case True
    then show ?thesis by (simp add: extract_vendor_name_Nil)
  next
    case False
    with str have b: "strip r \<noteq> []" by simp
    have n1: "\<not> (\<exists>name. numbered_with_stop (strip (collapse_ws r)) name)"
    proof
      assume "\<exists>name. numbered_with_stop (strip (collapse_ws r)) name"
      then obtain nm where "numbered_with_stop r nm" by (auto simp: col str)
      then obtain d' v1 v2 v3 v4 k rest where
        r: "r = d' @ v1 @ ''-'' @ v2 @ nm @ v3 @ ''-'' @ v4 @ k @ rest"
        and v: "list_all is_space v3" "list_all is_space v4" "list_all is_digit k" "k \<noteq> []"
        unfolding numbered_with_stop_def by blast
      have eq: "c = d @ ws1 @ ''-'' @ ws2 @ (l @ d' @ v1 @ ''-'' @ v2 @ nm) @ v3 @ ''-'' @ v4 @ k
                  @ (rest @ t @ e)"
        using cr r by simp
      with nn have "list_all not_newline (l @ d' @ v1 @ ''-'' @ v2 @ nm)" by simp
      with eq d w1 w2 v have "numbered_with_stop c (l @ d' @ v1 @ ''-'' @ v2 @ nm)"
        unfolding numbered_with_stop_def by blast
      with no1 show False unfolding c_def by blast
    qed
    have n2: "\<not> (\<exists>name. name_with_stop (strip (collapse_ws r)) name)"
    proof
      assume "\<exists>name. name_with_stop (strip (collapse_ws r)) name"
      then obtain nm where "name_with_stop r nm" by (auto simp: col str)
      then obtain v1 v2 k v3 rest where
        r: "r = nm @ v1 @ ''-'' @ v2 @ k @ v3 @ ''-'' @ rest"
        and v: "list_all is_space v1" "list_all is_space v2" "list_all is_digit k" "k \<noteq> []"
          "list_all is_space v3"
        unfolding name_with_stop_def by blast
      have eq: "c = (d @ ws1 @ ''-'' @ ws2 @ l @ nm) @ v1 @ ''-'' @ v2 @ k @ v3 @ ''-''
                  @ (rest @ t @ e)"
        using cr r by simp
      with nn have "list_all not_newline (d @ ws1 @ ''-'' @ ws2 @ l @ nm)" by simp
      with eq v have "name_with_stop c (d @ ws1 @ ''-'' @ ws2 @ l @ nm)"
        unfolding name_with_stop_def by blast
      with no2 show False unfolding c_def by blast
    qed
    have n3: "\<not> (\<exists>name. numbered_simple (strip (collapse_ws r)) name)"
    proof
      assume "\<exists>name. numbered_simple (strip (collapse_ws r)) name"
      then obtain nm where "numbered_simple r nm" by (auto simp: col str)
      then obtain d' v1 v2 e' where
        r: "r = d' @ v1 @ ''-'' @ v2 @ nm @ e'"
        and v: "list_all is_digit d'" "d' \<noteq> []" "list_all is_space v1"
        unfolding numbered_simple_def by blast
      have eq: "c = d @ ws1 @ ''-'' @ (ws2 @ l) @ d' @ v1 @ ''-'' @ (v2 @ nm @ e' @ t @ e)"
        using cr r by simp
      from c nn have dn: "list_all not_newline d" by simp
      from w2 l have "list_all is_space (ws2 @ l)" by simp
      with eq dn w1 v have "name_with_stop c d"
        unfolding name_with_stop_def by blast
      with no2 show False unfolding c_def by blast
    qed
    from vendor_fallback [OF b n1 n2 n3] show ?thesis by (simp add: col str)
  qed
  then show ?thesis by (simp add: ex r_def)
qed

lemma agropur_cleaned: "strip (collapse_ws ''237772 - Agropur'') = ''237772 - Agropur''"
  by code_simp

lemma agropur_searches:
  "search no_flags pattern_with_number ''237772 - Agropur'' = None
   \<and> search no_flags pattern_no_number ''237772 - Agropur'' = None
   \<and> search no_flags simple_pattern ''237772 - Agropur'' \<noteq> None
   \<and> strip ''237772 - Agropur'' \<noteq> []"
  by code_simp

lemma agropur_case3:
  "strip ''237772 - Agropur'' \<noteq> []
   \<and> \<not> (\<exists>name. numbered_with_stop (strip (collapse_ws ''237772 - Agropur'')) name)
   \<and> \<not> (\<exists>name. name_with_stop (strip (collapse_ws ''237772 - Agropur'')) name)
   \<and> (\<exists>name. numbered_simple (strip (collapse_ws ''237772 - Agropur'')) name)"
  using agropur_searches case1_None case2_None case3_None
  by (simp only: agropur_cleaned) blast

theorem extract_vendor_name_idempotent_witness:
  "extract_vendor_name ''237772 - Agropur'' = ''Agropur''
   \<and> extract_vendor_name (extract_vendor_name ''237772 - Agropur'')
       = extract_vendor_name ''237772 - Agropur''"
proof -
  have v: "extract_vendor_name ''237772 - Agropur'' = ''Agropur''" by code_simp
  have "extract_vendor_name (extract_vendor_name ''237772 - Agropur'')
       = extract_vendor_name ''237772 - Agropur''"
    using agropur_case3 by (intro extract_vendor_name_idempotent) blast+
  with v show ?thesis by simp
qed



section \<open>The stop table for stop numbers from 1\<close>

lemma place_positive:
  "1 \<le> k \<Longrightarrow> place ds k d = Inr ((ds @ replicate (k - length ds) [])[k - 1 := d])"
  by (simp add: place_def Let_def)

lemma padded_nth:
  assumes "1 \<le> k" and "i < max (length ds) k"
  shows "((ds @ replicate (k - length ds) [])[k - 1 := d]) ! i
       = (if Suc i = k then d else if i < length ds then ds ! i else [])"
proof -
  have len: "length (ds @ replicate (k - length ds) []) = max (length ds) k" by auto
  show ?thesis
  proof (cases "Suc i = k")
    case True
    then have "i = k - 1" by simp
    with assms len show ?thesis by (simp add: True)
  next
    case False
    then have "k - 1 \<noteq> i" using assms(1) by arith
    then have "((ds @ replicate (k - length ds) [])[k - 1 := d]) ! i
        = (ds @ replicate (k - length ds) []) ! i" by simp
    also have "\<dots> = (if i < length ds then ds ! i else [])"
      using assms(2) by (auto simp: nth_append)
    finally show ?thesis using False by simp
  qed
qed

text \<open>
  With every stop number at least 1 the loop never fails: the table is as long as the
  largest stop number, and slot \<open>i\<close> holds the trimmed destination of the last block
  numbered \<open>i + 1\<close>, the empty placeholder when there is none.
\<close>

lemma place_all_positive:
  assumes "\<forall>m \<in> set ms. 1 \<le> int_of_digits (group m 1)"
  shows "\<exists>tbl. place_all ds ms = Inr tbl
     \<and> length tbl = fold max (map (\<lambda>m. int_of_digits (group m 1)) ms) (length ds)
     \<and> (\<forall>i < length tbl. tbl ! i =
          (case filter (\<lambda>m. int_of_digits (group m 1) = Suc i) ms of
             [] \<Rightarrow> (if i < length ds then ds ! i else [])
           | x # xs \<Rightarrow> strip (group (last (x # xs)) 2)))"
  using assms
proof (induction ms arbitrary: ds)
  case Nil
  then show ?case by simp
next
  case (Cons m ms)
  define k where "k = int_of_digits (group m 1)"
  define d where "d = strip (group m 2)"
  define ds' where "ds' = (ds @ replicate (k - length ds) [])[k - 1 := d]"
  from Cons.prems have k1: "1 \<le> k" and rest: "\<forall>m \<in> set ms. 1 \<le> int_of_digits (group m 1)"
    by (auto simp: k_def)
  have step: "place_all ds (m # ms) = place_all ds' ms"
    using place_positive [OF k1, of ds d] by (simp add: k_def d_def ds'_def)
  have len': "length ds' = max (length ds) k" by (auto simp: ds'_def)
  from Cons.IH [OF rest, of ds'] obtain tbl where
    t1: "place_all ds' ms = Inr tbl"
    and t2: "length tbl = fold max (map (\<lambda>m. int_of_digits (group m 1)) ms) (length ds')"
    and t3: "\<forall>i < length tbl. tbl ! i =
          (case filter (\<lambda>m. int_of_digits (group m 1) = Suc i) ms of
             [] \<Rightarrow> (if i < length ds' then ds' ! i else [])
           | x # xs \<Rightarrow> strip (group (last (x # xs)) 2))"
    by blast
  have l: "length tbl = fold max (map (\<lambda>m. int_of_digits (group m 1)) (m # ms)) (length ds)"
    using t2 len' by (simp add: k_def max.commute)
  have c: "tbl ! i =
          (case filter (\<lambda>m. int_of_digits (group m 1) = Suc i) (m # ms) of
             [] \<Rightarrow> (if i < length ds then ds ! i else [])
           | x # xs \<Rightarrow> strip (group (last (x # xs)) 2))" if i: "i < length tbl" for i
  proof (cases "filter (\<lambda>m. int_of_digits (group m 1) = Suc i) ms")
    case Nil
    with t3 i have ti: "tbl ! i = (if i < length ds' then ds' ! i else [])" by simp
    show ?thesis
    proof (cases "i < length ds'")
      case True
      then have "ds' ! i = (if Suc i = k then d else if i < length ds then ds ! i else [])"
        unfolding ds'_def using padded_nth [OF k1, of i ds d] len' by simp
      with ti True Nil show ?thesis by (auto simp: k_def d_def)
    next
      case False
      with len' have "\<not> i < length ds" "Suc i \<noteq> k" by auto
      with ti False Nil show ?thesis by (auto simp: k_def)
    qed
  next
    case (Cons y ys)
    with t3 i have "tbl ! i = strip (group (last (y # ys)) 2)" by simp
    with Cons show ?thesis by simp
  qed
  show ?case
  proof (intro exI [of _ tbl] conjI allI impI)
    show "place_all ds (m # ms) = Inr tbl" using step t1 by simp
    show "length tbl = fold max (map (\<lambda>m. int_of_digits (group m 1)) (m # ms)) (length ds)"
      by (rule l)
    show "tbl ! i =
          (case filter (\<lambda>m. int_of_digits (group m 1) = Suc i) (m # ms) of
             [] \<Rightarrow> (if i < length ds then ds ! i else [])
           | x # xs \<Rightarrow> strip (group (last (x # xs)) 2))" if "i < length tbl" for i
      using that by (rule c)
  qed
qed

lemma extract_stop_destinations_positive:
  assumes "\<forall>m \<in> set (finditer stop_flags stop_pattern text). 1 \<le> int_of_digits (group m 1)"
  shows "\<exists>tbl. extract_stop_destinations text = Inr tbl
     \<and> length tbl = Max (set (0 # map (\<lambda>m. int_of_digits (group m 1))
                                      (finditer stop_flags stop_pattern text)))
     \<and> (\<forall>i < length tbl. tbl ! i =
          (case filter (\<lambda>m. int_of_digits (group m 1) = Suc i)
                  (finditer stop_flags stop_pattern text) of
             [] \<Rightarrow> []
           | x # xs \<Rightarrow> strip (group (last (x # xs)) 2)))"
proof -
  from place_all_positive [OF assms, of "[]"] obtain tbl where
    t1: "place_all [] (finditer stop_flags stop_pattern text) = Inr tbl"
    and t2: "length tbl = fold max (map (\<lambda>m. int_of_digits (group m 1))
                                      (finditer stop_flags stop_pattern text)) (length ([] :: string list))"
    and t3: "\<forall>i < length tbl. tbl ! i =
          (case filter (\<lambda>m. int_of_digits (group m 1) = Suc i)
                  (finditer stop_flags stop_pattern text) of
             [] \<Rightarrow> (if i < length ([] :: string list) then [] ! i else [])
           | x # xs \<Rightarrow> strip (group (last (x # xs)) 2))"
    by blast
  have l: "length tbl = Max (set (0 # map (\<lambda>m. int_of_digits (group m 1))
                                      (finditer stop_flags stop_pattern text)))"
    using t2 by (simp only: Max.set_eq_fold list.size)
  show ?thesis
  proof (intro exI [of _ tbl] conjI allI impI)
    show "extract_stop_destinations text = Inr tbl"
      using t1 by (simp add: extract_stop_destinations_def)
    show "length tbl = Max (set (0 # map (\<lambda>m. int_of_digits (group m 1))
                                      (finditer stop_flags stop_pattern text)))"
      by (rule l)
    show "tbl ! i =
          (case filter (\<lambda>m. int_of_digits (group m 1) = Suc i)
                  (finditer stop_flags stop_pattern text) of
             [] \<Rightarrow> []
           | x # xs \<Rightarrow> strip (group (last (x # xs)) 2))" if "i < length tbl" for i
      using t3 that by simp
  qed
qed

end
